theory Spec2Isabelle
  imports Complex_Main "HOL-Library.Word"
begin

section \<open>JavaScript values\<close>

text \<open>
  The values the rule engine and the proof generator handle are the values of parsed
  JSON documents (request bodies and JSONB columns), plus \<open>undefined\<close> and the members
  that every plain object inherits from \<open>Object.prototype\<close>. A number is a rational or
  one of the three values of type number that are no real number, \<open>Infinity\<close>,
  \<open>-Infinity\<close> and \<open>NaN\<close>: the engine only compares numbers, it never computes with
  them. Strings are byte strings (the UTF-8 of the text), except in the envelope cipher,
  which handles them as sequences of 16-bit code units. An object is the association
  list of its own properties, with distinct keys.
\<close>

datatype jsnum = Finite rat | PosInfinity | NegInfinity | NaN

datatype jsval =
    JUndefined
  | JNull
  | JBool bool
  | JNum jsnum
  | JStr string
  | JArr "jsval list"
  | JObj "(string \<times> jsval) list"
  | JBuiltin string

text \<open>
  The two conversions of the host that depend on the floating-point format,
  \<open>Number::toString\<close> on a finite number and \<open>StringToNumber\<close>, are parameters.
\<close>

record runtime =
  numToString :: "rat \<Rightarrow> string"
  stringToNumber :: "string \<Rightarrow> jsnum"

definition object_prototype_keys :: "string list" where
  "object_prototype_keys =
     [''constructor'', ''__defineGetter__'', ''__defineSetter__'', ''hasOwnProperty'',
      ''__lookupGetter__'', ''__lookupSetter__'', ''isPrototypeOf'',
      ''propertyIsEnumerable'', ''toString'', ''valueOf'', ''__proto__'',
      ''toLocaleString'']"

text \<open>
  \<open>obj[key]\<close> on a plain object: an own property first, then the prototype chain, which
  for an object literal or a parsed JSON object is \<open>Object.prototype\<close>; otherwise
  \<open>undefined\<close>.
\<close>

definition js_get :: "(string \<times> jsval) list \<Rightarrow> string \<Rightarrow> jsval" where
  "js_get props key =
     (case map_of props key of
        Some v \<Rightarrow> v
      | None \<Rightarrow> if key \<in> set object_prototype_keys then JBuiltin key else JUndefined)"

text \<open>
  \<open>a === b\<close>. Conditions and action data come from separately parsed documents, so an
  array or object of one is never the same reference as one of the other.
\<close>

fun js_strict_eq :: "jsval \<Rightarrow> jsval \<Rightarrow> bool" where
  "js_strict_eq JUndefined JUndefined = True"
| "js_strict_eq JNull JNull = True"
| "js_strict_eq (JBool a) (JBool b) = (a = b)"
| "js_strict_eq (JNum a) (JNum b) = (a = b \<and> a \<noteq> NaN)"
| "js_strict_eq (JStr a) (JStr b) = (a = b)"
| "js_strict_eq (JBuiltin a) (JBuiltin b) = (a = b)"
| "js_strict_eq _ _ = False"

fun js_truthy :: "jsval \<Rightarrow> bool" where
  "js_truthy JUndefined = False"
| "js_truthy JNull = False"
| "js_truthy (JBool b) = b"
| "js_truthy (JNum r) = (r \<noteq> Finite 0 \<and> r \<noteq> NaN)"
| "js_truthy (JStr s) = (s \<noteq> [])"
| "js_truthy _ = True"

fun is_string :: "jsval \<Rightarrow> bool" where
  "is_string (JStr s) = True"
| "is_string _ = False"

text \<open>\<open>typeof v === 'number'\<close>.\<close>

fun is_number :: "jsval \<Rightarrow> bool" where
  "is_number (JNum r) = True"
| "is_number _ = False"

fun is_array :: "jsval \<Rightarrow> bool" where
  "is_array (JArr xs) = True"
| "is_array _ = False"

fun join_with :: "string \<Rightarrow> string list \<Rightarrow> string" where
  "join_with sep [] = []"
| "join_with sep [x] = x"
| "join_with sep (x # y # ys) = x @ sep @ join_with sep (y # ys)"

fun num_String :: "runtime \<Rightarrow> jsnum \<Rightarrow> string" where
  "num_String rt (Finite r) = numToString rt r"
| "num_String rt PosInfinity = ''Infinity''"
| "num_String rt NegInfinity = ''-Infinity''"
| "num_String rt NaN = ''NaN''"

text \<open>\<open>String(v)\<close>.\<close>

fun js_String :: "runtime \<Rightarrow> jsval \<Rightarrow> string" where
  "js_String rt JUndefined = ''undefined''"
| "js_String rt JNull = ''null''"
| "js_String rt (JBool b) = (if b then ''true'' else ''false'')"
| "js_String rt (JNum r) = num_String rt r"
| "js_String rt (JStr s) = s"
| "js_String rt (JArr xs) =
     join_with '',''
       (map (\<lambda>x. if x = JNull \<or> x = JUndefined then [] else js_String rt x) xs)"
| "js_String rt (JObj kvs) = ''[object Object]''"
| "js_String rt (JBuiltin k) =
     (if k = ''__proto__'' then ''[object Object]''
      else ''function '' @ k @ ''() { [native code] }'')"

text \<open>\<open>Number(v)\<close>.\<close>

fun js_Number :: "runtime \<Rightarrow> jsval \<Rightarrow> jsnum" where
  "js_Number rt JUndefined = NaN"
| "js_Number rt JNull = Finite 0"
| "js_Number rt (JBool b) = Finite (if b then 1 else 0)"
| "js_Number rt (JNum r) = r"
| "js_Number rt (JStr s) = stringToNumber rt s"
| "js_Number rt (JArr xs) = stringToNumber rt (js_String rt (JArr xs))"
| "js_Number rt (JObj kvs) = NaN"
| "js_Number rt (JBuiltin k) = NaN"

text \<open>\<open>a < b\<close> and \<open>a <= b\<close> on numbers: false as soon as one side is \<open>NaN\<close>.\<close>

fun num_lt :: "jsnum \<Rightarrow> jsnum \<Rightarrow> bool" where
  "num_lt (Finite x) (Finite y) = (x < y)"
| "num_lt (Finite x) PosInfinity = True"
| "num_lt NegInfinity (Finite y) = True"
| "num_lt NegInfinity PosInfinity = True"
| "num_lt _ _ = False"

definition num_le :: "jsnum \<Rightarrow> jsnum \<Rightarrow> bool" where
  "num_le a b = (num_lt a b \<or> (a = b \<and> a \<noteq> NaN))"

text \<open>\<open>arr.includes(x)\<close>: SameValueZero, which is \<open>===\<close> except that \<open>NaN\<close> is found.\<close>

definition same_value_zero :: "jsval \<Rightarrow> jsval \<Rightarrow> bool" where
  "same_value_zero y x = (js_strict_eq y x \<or> (y = JNum NaN \<and> x = JNum NaN))"

definition array_includes :: "jsval list \<Rightarrow> jsval \<Rightarrow> bool" where
  "array_includes xs x = list_ex (\<lambda>y. same_value_zero y x) xs"

fun starts_with :: "string \<Rightarrow> string \<Rightarrow> bool" where
  "starts_with s [] = True"
| "starts_with [] (c # cs) = False"
| "starts_with (d # ds) (c # cs) = (d = c \<and> starts_with ds cs)"

text \<open>\<open>s.includes(t)\<close> on strings.\<close>

fun string_includes :: "string \<Rightarrow> string \<Rightarrow> bool" where
  "string_includes [] t = (t = [])"
| "string_includes (c # cs) t = (starts_with (c # cs) t \<or> string_includes cs t)"

text \<open>A template literal renders a non-negative integer in decimal.\<close>

function decimal :: "nat \<Rightarrow> string" where
  "decimal n =
     (if n < 10 then [''0123456789'' ! n]
      else decimal (n div 10) @ [''0123456789'' ! (n mod 10)])"
  by pat_completeness auto
termination
  by (relation "measure id") auto

declare decimal.simps [simp del]

section \<open>Rule engine\<close>

record condition =
  cond_field :: string
  cond_op :: string
  cond_value :: jsval

record EvalResult =
  res_field :: string
  res_op :: string
  expected :: jsval
  actual :: jsval
  pass :: bool

record RuleEvaluation =
  rule_met :: bool
  evaluation :: "EvalResult list"
  summary :: string

text \<open>The body of the \<open>map\<close> callback of \<open>evaluateRule\<close>: one condition, one result.\<close>

definition op_pass :: "runtime \<Rightarrow> string \<Rightarrow> jsval \<Rightarrow> jsval \<Rightarrow> bool" where
  "op_pass rt opr act v =
     (if opr = ''='' then js_strict_eq act v
      else if opr = ''!='' then \<not> js_strict_eq act v
      else if opr = ''<'' then num_lt (js_Number rt act) (js_Number rt v)
      else if opr = ''<='' then num_le (js_Number rt act) (js_Number rt v)
      else if opr = ''>'' then num_lt (js_Number rt v) (js_Number rt act)
      else if opr = ''>='' then num_le (js_Number rt v) (js_Number rt act)
      else if opr = ''IN'' then
        (case v of JArr xs \<Rightarrow> array_includes xs act | _ \<Rightarrow> False)
      else if opr = ''NOT IN'' then
        (case v of JArr xs \<Rightarrow> \<not> array_includes xs act | _ \<Rightarrow> False)
      else if opr = ''CONTAINS'' then
        (case act of JStr s \<Rightarrow> string_includes s (js_String rt v) | _ \<Rightarrow> False)
      else if opr = ''NOT CONTAINS'' then
        (case act of JStr s \<Rightarrow> \<not> string_includes s (js_String rt v) | _ \<Rightarrow> False)
      else False)"

definition eval_condition ::
  "runtime \<Rightarrow> (string \<times> jsval) list \<Rightarrow> condition \<Rightarrow> EvalResult" where
  "eval_condition rt actionData cond =
     (let act = js_get actionData (cond_field cond) in
      if act = JUndefined \<or> act = JNull then
        \<lparr>res_field = cond_field cond, res_op = cond_op cond,
         expected = cond_value cond, actual = JNull, pass = False\<rparr>
      else
        \<lparr>res_field = cond_field cond, res_op = cond_op cond,
         expected = cond_value cond, actual = act,
         pass = op_pass rt (cond_op cond) act (cond_value cond)\<rparr>)"

definition plural :: "nat \<Rightarrow> string" where
  "plural n_total = (if n_total > 1 then ''s'' else '''')"

definition evaluateRule ::
  "runtime \<Rightarrow> condition list \<Rightarrow> (string \<times> jsval) list \<Rightarrow> RuleEvaluation" where
  "evaluateRule rt conditions actionData =
     (let results = map (eval_condition rt actionData) conditions;
          n_passed = length (filter pass results);
          n_total = length results;
          met = (n_total > 0 \<and> list_all pass results)
      in \<lparr>rule_met = met,
          evaluation = results,
          summary =
            (if met then ''All '' @ decimal n_total @ '' condition'' @ plural n_total @ '' passed''
             else decimal (n_total - n_passed) @ '' of '' @ decimal n_total @ '' condition''
                  @ plural n_total @ '' failed'')\<rparr>)"

text \<open>A sample runtime for evaluating examples: integers print in decimal, and the
  only strings that convert to numbers are the decimal numerals it is given.\<close>

definition sample_runtime :: runtime where
  "sample_runtime =
     \<lparr>numToString = (\<lambda>r. if r < 0 then ''-'' @ decimal (nat \<lfloor>- r\<rfloor>) else decimal (nat \<lfloor>r\<rfloor>)),
      stringToNumber = (\<lambda>s. if s = ''0'' then Finite 0 else if s = ''1'' then Finite 1 else NaN)\<rparr>"

text \<open>The rule and the two action records of the end-to-end scenarios.\<close>

definition conds0 :: "condition list" where
  "conds0 = [\<lparr>cond_field = ''slippage_pct'', cond_op = ''<='', cond_value = JNum (Finite (1/2))\<rparr>,
             \<lparr>cond_field = ''pool_tvl'', cond_op = ''>'', cond_value = JNum (Finite 50000)\<rparr>]"

definition action0 :: "(string \<times> jsval) list" where
  "action0 = [(''slippage_pct'', JNum (Finite (38/100))), (''pool_tvl'', JNum (Finite 2100000))]"

subsection \<open>Aggregate result\<close>

lemma filter_not_pass_length:
  "length (filter (\<lambda>r. \<not> pass r) rs) = length rs - length (filter pass rs)"
  using sum_length_filter_compl [of pass rs] by simp

text \<open>
  C5. For every condition list and action record, \<open>rule_met\<close> of \<open>evaluateRule\<close> is true
  iff every per-condition result passes, except that a rule with no condition is never
  met. The summary is "All N condition(s) passed" when the rule is met and
  "K of N condition(s) failed" otherwise, where N is the number of conditions, K the
  number of results that do not pass, and "(s)" is the plural ending, written when N > 1.
\<close>

theorem evaluateRule_met_and_summary:
  "(conditions \<noteq> [] \<longrightarrow>
      (rule_met (evaluateRule rt conditions actionData) \<longleftrightarrow>
         (\<forall>r \<in> set (evaluation (evaluateRule rt conditions actionData)). pass r)))
   \<and> (conditions = [] \<longrightarrow> \<not> rule_met (evaluateRule rt conditions actionData))
   \<and> (rule_met (evaluateRule rt conditions actionData) \<longrightarrow>
        summary (evaluateRule rt conditions actionData) =
          ''All '' @ decimal (length conditions) @ '' condition''
            @ plural (length conditions) @ '' passed'')
   \<and> (\<not> rule_met (evaluateRule rt conditions actionData) \<longrightarrow>
        summary (evaluateRule rt conditions actionData) =
          decimal (length (filter (\<lambda>r. \<not> pass r)
                     (evaluation (evaluateRule rt conditions actionData))))
            @ '' of '' @ decimal (length conditions) @ '' condition''
            @ plural (length conditions) @ '' failed'')"
  by (simp add: evaluateRule_def Let_def filter_not_pass_length list_all_iff)

theorem evaluateRule_met_and_summary_witness:
  "conds0 \<noteq> []
   \<and> rule_met (evaluateRule sample_runtime conds0 action0)
   \<and> list_all pass (evaluation (evaluateRule sample_runtime conds0 action0))
   \<and> summary (evaluateRule sample_runtime conds0 action0) = ''All 2 conditions passed''
   \<and> \<not> rule_met (evaluateRule sample_runtime conds0 [])
   \<and> summary (evaluateRule sample_runtime conds0 []) = ''2 of 2 conditions failed''
   \<and> \<not> rule_met (evaluateRule sample_runtime [] action0)
   \<and> summary (evaluateRule sample_runtime [] action0) = ''0 of 0 condition failed''"
proof -
  have ev: "map (eval_condition sample_runtime action0) conds0 =
      [\<lparr>res_field = ''slippage_pct'', res_op = ''<='', expected = JNum (Finite (1/2)),
        actual = JNum (Finite (38/100)), pass = True\<rparr>,
       \<lparr>res_field = ''pool_tvl'', res_op = ''>'', expected = JNum (Finite 50000),
        actual = JNum (Finite 2100000), pass = True\<rparr>]"
    by (simp add: conds0_def action0_def eval_condition_def js_get_def op_pass_def
        Let_def num_le_def)
  have ev2: "map (eval_condition sample_runtime []) conds0 =
      [\<lparr>res_field = ''slippage_pct'', res_op = ''<='', expected = JNum (Finite (1/2)),
        actual = JNull, pass = False\<rparr>,
       \<lparr>res_field = ''pool_tvl'', res_op = ''>'', expected = JNum (Finite 50000),
        actual = JNull, pass = False\<rparr>]"
    by (simp add: conds0_def eval_condition_def js_get_def object_prototype_keys_def Let_def)
  have met: "rule_met (evaluateRule sample_runtime conds0 action0)"
    by (simp add: evaluateRule_def Let_def ev)
  have nmet: "\<not> rule_met (evaluateRule sample_runtime conds0 [])"
    by (simp add: evaluateRule_def Let_def ev2)
  have k: "length (filter (\<lambda>r. \<not> pass r) (evaluation (evaluateRule sample_runtime conds0 []))) = 2"
    by (simp add: evaluateRule_def Let_def ev2)
  have n: "length conds0 = 2" "conds0 \<noteq> []" by (simp_all add: conds0_def)
  have e: "evaluation (evaluateRule sample_runtime [] action0) = []"
    by (simp add: evaluateRule_def Let_def)
  have d: "decimal 2 = ''2''" "decimal 0 = ''0''" by (simp_all add: decimal.simps)
  note t1 = evaluateRule_met_and_summary [of conds0 sample_runtime action0]
  note t2 = evaluateRule_met_and_summary [of conds0 sample_runtime "[]"]
  note t3 = evaluateRule_met_and_summary [of "[]" sample_runtime action0]
  have s1: "summary (evaluateRule sample_runtime conds0 action0) = ''All 2 conditions passed''"
    using t1 met n d by (simp add: plural_def)
  have s2: "summary (evaluateRule sample_runtime conds0 []) = ''2 of 2 conditions failed''"
    using t2 nmet k n d by (simp add: plural_def)
  have m3: "\<not> rule_met (evaluateRule sample_runtime [] action0)"
    using t3 by simp
  have s3: "summary (evaluateRule sample_runtime [] action0) = ''0 of 0 condition failed''"
    using t3 m3 e d by (simp add: plural_def)
  have a1: "list_all pass (evaluation (evaluateRule sample_runtime conds0 action0))"
    using t1 met n by (simp add: list_all_iff)
  show ?thesis
    using n met a1 s1 nmet s2 m3 s3 by simp
qed

subsection \<open>Equality operators\<close>

lemma evaluation_nth:
  "i < length conditions \<Longrightarrow>
   evaluation (evaluateRule rt conditions actionData) ! i =
     eval_condition rt actionData (conditions ! i)"
  by (simp add: evaluateRule_def Let_def)






subsection \<open>Missing fields\<close>

lemma missing_field_fails:
  assumes "i < length conditions"
    and "js_get actionData (cond_field (conditions ! i)) = JUndefined
         \<or> js_get actionData (cond_field (conditions ! i)) = JNull"
  shows "pass (evaluation (evaluateRule rt conditions actionData) ! i) = False
    \<and> actual (evaluation (evaluateRule rt conditions actionData) ! i) = JNull"
  using assms by (auto simp add: evaluation_nth eval_condition_def Let_def)

lemma one_result_per_condition:
  "length (evaluation (evaluateRule rt conditions actionData)) = length conditions"
  by (simp add: evaluateRule_def Let_def)

text \<open>
  C10. A condition whose field is absent from the action record must give a result with
  \<open>pass = false\<close> and \<open>actual = null\<close>. The lookup \<open>actionData[cond.field]\<close> also finds the
  members every plain object inherits, so for the field name \<open>constructor\<close>, absent from
  the record, the result carries the inherited function as \<open>actual\<close>, passes under \<open>!=\<close>,
  and the rule is met.
\<close>

theorem missing_field_prototype_leak:
  "map_of [(''amount'', JNum (Finite 5))] ''constructor'' = None
   \<and> evaluateRule sample_runtime
       [\<lparr>cond_field = ''constructor'', cond_op = ''!='', cond_value = JStr ''x''\<rparr>]
       [(''amount'', JNum (Finite 5))]
     = \<lparr>rule_met = True,
        evaluation = [\<lparr>res_field = ''constructor'', res_op = ''!='', expected = JStr ''x'',
                       actual = JBuiltin ''constructor'', pass = True\<rparr>],
        summary = ''All 1 condition passed''\<rparr>"
  by (simp add: evaluateRule_def eval_condition_def js_get_def Let_def op_pass_def
      object_prototype_keys_def plural_def decimal.simps)

section \<open>Registration-time validation\<close>

definition VALID_OPS :: "string list" where
  "VALID_OPS = [''='', ''!='', ''<'', ''<='', ''>'', ''>='', ''IN'', ''NOT IN'',
                ''CONTAINS'', ''NOT CONTAINS'']"

text \<open>
  The violations \<open>validateConditions\<close> reports, in place of the message texts:
  "Conditions must be a non-empty array", "Maximum 20 conditions per rule", and for
  condition \<open>i\<close>: "'field' must be a non-empty string", "invalid operator '...'",
  "'value' is required", "'...' operator requires an array value",
  "'...' operator requires a numeric value".
\<close>

datatype violation =
    NotNonEmptyArray
  | TooManyConditions
  | FieldNotString nat
  | InvalidOperator nat jsval
  | ValueRequired nat
  | ArrayValueRequired nat jsval
  | NumericValueRequired nat jsval

datatype validation = Valid | Invalid violation

definition op_in :: "jsval \<Rightarrow> string list \<Rightarrow> bool" where
  "op_in v ops = (case v of JStr s \<Rightarrow> s \<in> set ops | _ \<Rightarrow> False)"

text \<open>
  Reading a property of \<open>undefined\<close> or \<open>null\<close> throws a \<open>TypeError\<close>. Of the other
  values, only a plain object has own properties; a boolean, a number, a string or an
  array has no property named \<open>field\<close>, \<open>op\<close> or \<open>value\<close>, the three names read from a
  condition.
\<close>

datatype js_error = TypeError

fun own_props :: "jsval \<Rightarrow> (string \<times> jsval) list" where
  "own_props (JObj kvs) = kvs"
| "own_props _ = []"

text \<open>
  The body of the loop of \<open>validateConditions\<close> for the condition \<open>c\<close> at index \<open>i\<close>:
  \<open>c.field\<close> is read first, and throws when \<open>c\<close> is \<open>null\<close> or \<open>undefined\<close>.
\<close>

definition check_props :: "nat \<Rightarrow> (string \<times> jsval) list \<Rightarrow> violation option" where
  "check_props i c =
     (if \<not> js_truthy (js_get c ''field'') \<or> \<not> is_string (js_get c ''field'') then
        Some (FieldNotString i)
      else if \<not> op_in (js_get c ''op'') VALID_OPS then
        Some (InvalidOperator i (js_get c ''op''))
      else if js_get c ''value'' = JUndefined then
        Some (ValueRequired i)
      else if (js_get c ''op'' = JStr ''IN'' \<or> js_get c ''op'' = JStr ''NOT IN'')
              \<and> \<not> is_array (js_get c ''value'') then
        Some (ArrayValueRequired i (js_get c ''op''))
      else if op_in (js_get c ''op'') [''<'', ''<='', ''>'', ''>='']
              \<and> \<not> is_number (js_get c ''value'') then
        Some (NumericValueRequired i (js_get c ''op''))
      else None)"

definition check_condition :: "nat \<Rightarrow> jsval \<Rightarrow> js_error + violation option" where
  "check_condition i c =
     (if c = JUndefined \<or> c = JNull then Inl TypeError
      else Inr (check_props i (own_props c)))"

fun validate_from :: "nat \<Rightarrow> jsval list \<Rightarrow> js_error + validation" where
  "validate_from i [] = Inr Valid"
| "validate_from i (c # cs) =
     (case check_condition i c of
        Inl e \<Rightarrow> Inl e
      | Inr (Some v) \<Rightarrow> Inr (Invalid v)
      | Inr None \<Rightarrow> validate_from (Suc i) cs)"

text \<open>
  The argument is the list of the elements of the array (of any values), so the
  \<open>Array.isArray\<close> test of the source holds by its type. The result is what is returned,
  or the error thrown.
\<close>

definition validateConditions :: "jsval list \<Rightarrow> js_error + validation" where
  "validateConditions conditions =
     (if length conditions = 0 then Inr (Invalid NotNonEmptyArray)
      else if length conditions > 20 then Inr (Invalid TooManyConditions)
      else validate_from 0 conditions)"






definition first_violation :: "violation list \<Rightarrow> validation" where
  "first_violation vs = (case vs of [] \<Rightarrow> Valid | v # _ \<Rightarrow> Invalid v)"

definition rawcond :: "string \<Rightarrow> string \<Rightarrow> jsval \<Rightarrow> jsval" where
  "rawcond f opr v = JObj [(''field'', JStr f), (''op'', JStr opr), (''value'', v)]"





lemma first_violation_append:
  "first_violation (xs @ ys) = (case xs of [] \<Rightarrow> first_violation ys | v # _ \<Rightarrow> Invalid v)"
  by (cases xs) (simp_all add: first_violation_def)


lemma null_condition_throws:
  "validateConditions [JNull] = Inl TypeError"
  "validateConditions [rawcond ''x'' ''='' (JNum (Finite 1)), JUndefined] = Inl TypeError"
  by (simp_all add: validateConditions_def check_condition_def check_props_def rawcond_def
      js_get_def op_in_def VALID_OPS_def)




section \<open>Merkle batcher\<close>

text \<open>
  Bytes are 8-bit words and a \<open>Uint8Array\<close> is a list of them. \<open>bytesToHex\<close> and
  \<open>hexToBytes\<close> are the library's: two lower-case digits per byte, and a decoder that
  drops a leading \<open>0x\<close>, accepts both cases and fails on an odd length or a character
  that is no hex digit. \<open>keccak256\<close> is a parameter of the model.
\<close>

type_synonym byte = "8 word"

definition hex_char :: "nat \<Rightarrow> char" where
  "hex_char n = ''0123456789abcdef'' ! n"

definition bytesToHex :: "byte list \<Rightarrow> string" where
  "bytesToHex bs = concat (map (\<lambda>b. [hex_char (unat b div 16), hex_char (unat b mod 16)]) bs)"

definition hex_val :: "char \<Rightarrow> nat option" where
  "hex_val c =
     (let n = (of_char c :: nat) in
      if 48 \<le> n \<and> n \<le> 57 then Some (n - 48)
      else if 65 \<le> n \<and> n \<le> 70 then Some (n - 55)
      else if 97 \<le> n \<and> n \<le> 102 then Some (n - 87)
      else None)"

fun hex_pairs :: "string \<Rightarrow> byte list option" where
  "hex_pairs [] = Some []"
| "hex_pairs [c] = None"
| "hex_pairs (c1 # c2 # rest) =
     (case (hex_val c1, hex_val c2) of
        (Some h, Some l) \<Rightarrow> map_option ((#) (of_nat (h * 16 + l))) (hex_pairs rest)
      | _ \<Rightarrow> None)"

definition hexToBytes :: "string \<Rightarrow> byte list option" where
  "hexToBytes hex = hex_pairs (if take 2 hex = ''0x'' then drop 2 hex else hex)"

subsection \<open>Hex encoding\<close>

lemma hex_char_code:
  assumes "n < 16"
  shows "(of_char (hex_char n) :: nat) = (if n < 10 then 48 + n else 87 + n)"
proof -
  have "\<forall>k \<in> set [0..<16]. (of_char (hex_char k) :: nat) = (if k < 10 then 48 + k else 87 + k)"
    by code_simp
  then show ?thesis using assms by simp
qed

lemma hex_val_hex_char: "n < 16 \<Longrightarrow> hex_val (hex_char n) = Some n"
  by (simp add: hex_val_def hex_char_code Let_def)

lemma byte_split: "(of_nat (unat b div 16 * 16 + unat b mod 16) :: byte) = b"
  by simp

lemma unat_byte_div: "unat (b :: byte) div 16 < 16"
proof -
  have "unat b < 256" using unsigned_less [of b] by simp
  then show ?thesis by simp
qed

lemma hex_pairs_bytesToHex: "hex_pairs (bytesToHex bs) = Some bs"
  by (induction bs) (simp_all add: bytesToHex_def hex_val_hex_char unat_byte_div)

lemma hex_char_not_x: "n < 16 \<Longrightarrow> hex_char n \<noteq> CHR ''x''"
proof
  assume "n < 16" and "hex_char n = CHR ''x''"
  then have "(of_char (hex_char n) :: nat) = 120" by simp
  then show False using hex_char_code [OF \<open>n < 16\<close>] \<open>n < 16\<close> by (simp split: if_splits)
qed

lemma bytesToHex_no_prefix: "take 2 (bytesToHex bs) \<noteq> ''0x''"
proof (cases bs)
  case Nil
  then show ?thesis by (simp add: bytesToHex_def)
next
  case (Cons b bs')
  have "hex_char (unat b mod 16) \<noteq> CHR ''x''" by (simp add: hex_char_not_x)
  then show ?thesis using Cons by (simp add: bytesToHex_def)
qed

lemma hexToBytes_bytesToHex: "hexToBytes (bytesToHex bs) = Some bs"
  by (simp add: hexToBytes_def bytesToHex_no_prefix hex_pairs_bytesToHex)

text \<open>\<open>s <= t\<close> on strings: lexicographic on the code units.\<close>

fun str_le :: "string \<Rightarrow> string \<Rightarrow> bool" where
  "str_le [] t = True"
| "str_le (c # cs) [] = False"
| "str_le (c # cs) (d # ds) =
     ((of_char c :: nat) < of_char d \<or> (c = d \<and> str_le cs ds))"

fun bytes_le :: "byte list \<Rightarrow> byte list \<Rightarrow> bool" where
  "bytes_le [] t = True"
| "bytes_le (x # xs) [] = False"
| "bytes_le (x # xs) (y # ys) = (x < y \<or> (x = y \<and> bytes_le xs ys))"

lemma hex_char_less:
  "m < 16 \<Longrightarrow> n < 16 \<Longrightarrow> (of_char (hex_char m) :: nat) < of_char (hex_char n) \<longleftrightarrow> m < n"
  by (simp add: hex_char_code)

lemma hex_char_inj: "m < 16 \<Longrightarrow> n < 16 \<Longrightarrow> hex_char m = hex_char n \<longleftrightarrow> m = n"
  using hex_val_hex_char by (metis option.inject)

lemma nibbles_less:
  fixes a b c d :: nat
  assumes "b < 16" and "d < 16"
  shows "a * 16 + b < c * 16 + d \<longleftrightarrow> a < c \<or> (a = c \<and> b < d)"
proof (cases a c rule: linorder_cases)
  case less
  then have "a * 16 + b < c * 16 + d" using assms by linarith
  then show ?thesis using less by simp
next
  case equal
  then show ?thesis by simp
next
  case greater
  then have "\<not> a * 16 + b < c * 16 + d" using assms by linarith
  then show ?thesis using greater by simp
qed

lemma nibbles_eq:
  fixes a b c d :: nat
  assumes "b < 16" and "d < 16"
  shows "a * 16 + b = c * 16 + d \<longleftrightarrow> a = c \<and> b = d"
proof (cases a c rule: linorder_cases)
  case less
  then have "a * 16 + b \<noteq> c * 16 + d" using assms by linarith
  then show ?thesis using less by simp
next
  case equal
  then show ?thesis by simp
next
  case greater
  then have "a * 16 + b \<noteq> c * 16 + d" using assms by linarith
  then show ?thesis using greater by simp
qed

lemma byte_less_nibbles:
  "(x :: byte) < y \<longleftrightarrow>
     unat x div 16 < unat y div 16 \<or> (unat x div 16 = unat y div 16 \<and> unat x mod 16 < unat y mod 16)"
proof -
  have "x < y \<longleftrightarrow> unat x div 16 * 16 + unat x mod 16 < unat y div 16 * 16 + unat y mod 16"
    by (simp add: word_less_nat_alt)
  also have "\<dots> \<longleftrightarrow> unat x div 16 < unat y div 16 \<or> (unat x div 16 = unat y div 16 \<and> unat x mod 16 < unat y mod 16)"
    by (rule nibbles_less) simp_all
  finally show ?thesis .
qed

lemma byte_eq_nibbles:
  "(x :: byte) = y \<longleftrightarrow> unat x div 16 = unat y div 16 \<and> unat x mod 16 = unat y mod 16"
proof -
  have "x = y \<longleftrightarrow> unat x div 16 * 16 + unat x mod 16 = unat y div 16 * 16 + unat y mod 16"
    by (simp add: word_unat_eq_iff)
  also have "\<dots> \<longleftrightarrow> unat x div 16 = unat y div 16 \<and> unat x mod 16 = unat y mod 16"
    by (rule nibbles_eq) simp_all
  finally show ?thesis .
qed
lemma str_le_bytesToHex: "str_le (bytesToHex a) (bytesToHex b) \<longleftrightarrow> bytes_le a b"
proof (induction a b rule: bytes_le.induct)
  case (1 t)
  show ?case by (simp add: bytesToHex_def)
next
  case (2 x xs)
  show ?case by (simp add: bytesToHex_def)
next
  case (3 x xs y ys)
  have IH: "str_le (bytesToHex xs) (bytesToHex ys) \<longleftrightarrow> bytes_le xs ys"
    using 3 by simp
  have "str_le (bytesToHex (x # xs)) (bytesToHex (y # ys)) \<longleftrightarrow>
     (unat x div 16 < unat y div 16 \<or> (unat x div 16 = unat y div 16 \<and>
       (unat x mod 16 < unat y mod 16 \<or> (unat x mod 16 = unat y mod 16 \<and> bytes_le xs ys))))"
    using IH by (simp add: bytesToHex_def hex_char_less hex_char_inj unat_byte_div)
  also have "\<dots> \<longleftrightarrow> (x < y \<or> (x = y \<and> bytes_le xs ys))"
    unfolding byte_less_nibbles [of x y] byte_eq_nibbles [of x y] by blast
  finally show ?case by simp
qed


datatype merkle_error = NoLeaves | InvalidHex | RangeError

text \<open>\<open>dst.set(src, off)\<close> on a \<open>Uint8Array\<close>.\<close>

definition u8_set :: "byte list \<Rightarrow> byte list \<Rightarrow> nat \<Rightarrow> merkle_error + byte list" where
  "u8_set dst src off =
     (if off + length src > length dst then Inl RangeError
      else Inr (take off dst @ src @ drop (off + length src) dst))"

definition combine_pair ::
  "(byte list \<Rightarrow> byte list) \<Rightarrow> byte list \<Rightarrow> byte list \<Rightarrow> merkle_error + byte list" where
  "combine_pair keccak256 x y =
     (let (a, b) = (if str_le (bytesToHex x) (bytesToHex y) then (x, y) else (y, x)) in
      case u8_set (replicate 64 0) a 0 of
        Inl e \<Rightarrow> Inl e
      | Inr c1 \<Rightarrow>
          (case u8_set c1 b 32 of
             Inl e \<Rightarrow> Inl e
           | Inr combined \<Rightarrow> Inr (keccak256 combined)))"

fun next_layer ::
  "(byte list \<Rightarrow> byte list) \<Rightarrow> byte list list \<Rightarrow> merkle_error + byte list list" where
  "next_layer keccak256 [] = Inr []"
| "next_layer keccak256 [x] = Inr [x]"
| "next_layer keccak256 (x # y # rest) =
     (case combine_pair keccak256 x y of
        Inl e \<Rightarrow> Inl e
      | Inr h \<Rightarrow>
          (case next_layer keccak256 rest of
             Inl e \<Rightarrow> Inl e
           | Inr hs \<Rightarrow> Inr (h # hs)))"

lemma next_layer_length:
  "next_layer k layer = Inr l' \<Longrightarrow> length l' = (length layer + 1) div 2"
  by (induction k layer arbitrary: l' rule: next_layer.induct)
    (auto split: sum.splits)

function reduce_layers ::
  "(byte list \<Rightarrow> byte list) \<Rightarrow> byte list list \<Rightarrow> merkle_error + byte list list" where
  "reduce_layers keccak256 layer =
     (if length layer > 1 then
        (case next_layer keccak256 layer of
           Inl e \<Rightarrow> Inl e
         | Inr nextLayer \<Rightarrow> reduce_layers keccak256 nextLayer)
      else Inr layer)"
  by pat_completeness auto
termination
proof (relation "measure (\<lambda>(k, layer). length layer)")
  show "wf (measure (\<lambda>(k, layer). length layer))" by simp
next
  fix keccak256 :: "byte list \<Rightarrow> byte list" and layer nextLayer
  assume "1 < length layer" and "next_layer keccak256 layer = Inr nextLayer"
  then show "((keccak256, nextLayer), (keccak256, layer)) \<in> measure (\<lambda>(k, layer). length layer)"
    using next_layer_length [of keccak256 layer nextLayer] by simp
qed

declare reduce_layers.simps [simp del]

fun map_hexToBytes :: "string list \<Rightarrow> merkle_error + byte list list" where
  "map_hexToBytes [] = Inr []"
| "map_hexToBytes (l # ls) =
     (case hexToBytes (drop 2 l) of
        None \<Rightarrow> Inl InvalidHex
      | Some b \<Rightarrow>
          (case map_hexToBytes ls of Inl e \<Rightarrow> Inl e | Inr bs \<Rightarrow> Inr (b # bs)))"

definition computeMerkleRoot ::
  "(byte list \<Rightarrow> byte list) \<Rightarrow> string list \<Rightarrow> merkle_error + string" where
  "computeMerkleRoot keccak256 leaves =
     (if length leaves = 0 then Inl NoLeaves
      else if length leaves = 1 then Inr (leaves ! 0)
      else
        (case map_hexToBytes leaves of
           Inl e \<Rightarrow> Inl e
         | Inr layer0 \<Rightarrow>
             (case reduce_layers keccak256 layer0 of
                Inl e \<Rightarrow> Inl e
              | Inr layer \<Rightarrow>
                  (case layer of
                     [] \<Rightarrow> Inl InvalidHex
                   | r # _ \<Rightarrow> Inr (''0x'' @ bytesToHex r)))))"


text \<open>
  The tree as the specification words it: a pair is ordered byte-wise, smaller first, and
  hashed over the concatenation; an odd leftover node moves up unchanged; levels are
  built until one node remains.
\<close>

definition leaf_hex :: "byte list \<Rightarrow> string" where
  "leaf_hex b = ''0x'' @ bytesToHex b"

definition sorted_pair_hash ::
  "(byte list \<Rightarrow> byte list) \<Rightarrow> byte list \<Rightarrow> byte list \<Rightarrow> byte list" where
  "sorted_pair_hash H a b = H (if bytes_le a b then a @ b else b @ a)"

fun merkle_level :: "(byte list \<Rightarrow> byte list) \<Rightarrow> byte list list \<Rightarrow> byte list list" where
  "merkle_level H [] = []"
| "merkle_level H [x] = [x]"
| "merkle_level H (a # b # rest) = sorted_pair_hash H a b # merkle_level H rest"

lemma merkle_level_length: "length (merkle_level H nodes) = (length nodes + 1) div 2"
  by (induction H nodes rule: merkle_level.induct) simp_all

function merkle_root :: "(byte list \<Rightarrow> byte list) \<Rightarrow> byte list list \<Rightarrow> byte list option" where
  "merkle_root H [] = None"
| "merkle_root H [x] = Some x"
| "merkle_root H (a # b # rest) = merkle_root H (merkle_level H (a # b # rest))"
  by pat_completeness auto
termination
  by (relation "measure (\<lambda>(H, nodes). length nodes)")
    (simp_all add: merkle_level_length)

lemma combine_pair_32:
  assumes "length (x :: byte list) = 32" and "length y = 32"
  shows "combine_pair H x y = Inr (sorted_pair_hash H x y)"
  using assms
  by (simp add: combine_pair_def sorted_pair_hash_def u8_set_def str_le_bytesToHex)

lemma next_layer_level:
  assumes "\<forall>l \<in> set layer. length l = 32"
  shows "next_layer H layer = Inr (merkle_level H layer)"
  using assms
  by (induction H layer rule: merkle_level.induct) (simp_all add: combine_pair_32)

lemma merkle_level_32:
  "\<forall>x. length (H x) = 32 \<Longrightarrow> \<forall>l \<in> set layer. length l = 32 \<Longrightarrow>
   \<forall>l \<in> set (merkle_level H layer). length l = 32"
  by (induction H layer rule: merkle_level.induct)
    (simp_all add: sorted_pair_hash_def)

lemma reduce_layers_root:
  "\<forall>x. length (H x) = 32 \<Longrightarrow> layer \<noteq> [] \<Longrightarrow> \<forall>l \<in> set layer. length l = 32 \<Longrightarrow>
    \<exists>root. merkle_root H layer = Some root \<and> reduce_layers H layer = Inr [root]"
proof (induction H layer rule: merkle_root.induct)
  case (1 H)
  then show ?case by simp
next
  case (2 H x)
  then show ?case by (simp add: reduce_layers.simps)
next
  case (3 H a b rest)
  let ?layer = "a # b # rest"
  have all32: "\<forall>l \<in> set (merkle_level H ?layer). length l = 32"
    using merkle_level_32 [OF "3.prems"(1) "3.prems"(3)] .
  have ne: "merkle_level H ?layer \<noteq> []" by simp
  obtain root where r: "merkle_root H (merkle_level H ?layer) = Some root"
      "reduce_layers H (merkle_level H ?layer) = Inr [root]"
    using "3.IH" [OF "3.prems"(1) ne all32] by blast
  have nl: "next_layer H ?layer = Inr (merkle_level H ?layer)"
    using next_layer_level [OF "3.prems"(3)] .
  have "reduce_layers H ?layer = reduce_layers H (merkle_level H ?layer)"
    using reduce_layers.simps [of H ?layer] unfolding nl by simp
  then show ?case using r by simp
qed

lemma map_hexToBytes_leaf_hex: "map_hexToBytes (map leaf_hex bs) = Inr bs"
  by (induction bs) (simp_all add: leaf_hex_def hexToBytes_bytesToHex)

lemma computeMerkleRoot_root:
  assumes "\<forall>x. length (H x) = 32" and "\<forall>l \<in> set leaves. length l = 32"
    and "leaves \<noteq> []"
  shows "\<exists>root. merkle_root H leaves = Some root
           \<and> computeMerkleRoot H (map leaf_hex leaves) = Inr (leaf_hex root)"
proof (cases "length leaves = 1")
  case True
  then obtain b where "leaves = [b]" by (cases leaves) auto
  then show ?thesis by (simp add: computeMerkleRoot_def)
next
  case False
  obtain root where r: "merkle_root H leaves = Some root" "reduce_layers H leaves = Inr [root]"
    using reduce_layers_root [OF assms(1) assms(3) assms(2)] by blast
  show ?thesis
    using r False assms(3)
    by (simp add: computeMerkleRoot_def map_hexToBytes_leaf_hex leaf_hex_def)
qed

definition bytes_lt :: "byte list \<Rightarrow> byte list \<Rightarrow> bool" where
  "bytes_lt a b = (bytes_le a b \<and> a \<noteq> b)"

lemma merkle_root_three:
  "bytes_lt h1 h2 \<Longrightarrow>
   merkle_root H [h1, h2, h3] = Some (sorted_pair_hash H (H (h1 @ h2)) h3)"
  by (simp add: sorted_pair_hash_def bytes_lt_def)

text \<open>
  C7. With a 32-byte hash, \<open>computeMerkleRoot\<close> returns the leaf itself for a single-leaf
  list; for every non-empty list of 32-byte leaves it returns the root of the tree whose
  interior nodes hash the byte-wise ordered pair (smaller first) over the 64-byte
  concatenation and whose odd leftover node is promoted unchanged; and for three leaves
  \<open>h1 < h2 < h3\<close> the root is the sorted-pair hash of \<open>H (h1 @ h2)\<close> and \<open>h3\<close>.
\<close>

theorem computeMerkleRoot_sorted_pair_tree:
  assumes "\<forall>x. length (keccak256 x) = 32"
  shows "computeMerkleRoot keccak256 [leaf] = Inr leaf
    \<and> (leaves \<noteq> [] \<and> (\<forall>l \<in> set leaves. length l = 32) \<longrightarrow>
         (\<exists>root. merkle_root keccak256 leaves = Some root
            \<and> computeMerkleRoot keccak256 (map leaf_hex leaves) = Inr (leaf_hex root)))
    \<and> (length h1 = 32 \<and> length h2 = 32 \<and> length h3 = 32
         \<and> bytes_lt h1 h2 \<and> bytes_lt h2 h3 \<longrightarrow>
         computeMerkleRoot keccak256 (map leaf_hex [h1, h2, h3])
           = Inr (leaf_hex (sorted_pair_hash keccak256 (keccak256 (h1 @ h2)) h3)))"
proof (intro conjI impI)
  show "computeMerkleRoot keccak256 [leaf] = Inr leaf"
    by (simp add: computeMerkleRoot_def)
next
  assume "leaves \<noteq> [] \<and> (\<forall>l \<in> set leaves. length l = 32)"
  then show "\<exists>root. merkle_root keccak256 leaves = Some root
            \<and> computeMerkleRoot keccak256 (map leaf_hex leaves) = Inr (leaf_hex root)"
    using computeMerkleRoot_root [OF assms, of leaves] by blast
next
  assume h: "length h1 = 32 \<and> length h2 = 32 \<and> length h3 = 32
         \<and> bytes_lt h1 h2 \<and> bytes_lt h2 h3"
  then have "\<forall>l \<in> set [h1, h2, h3]. length l = 32" by simp
  then obtain root where r: "merkle_root keccak256 [h1, h2, h3] = Some root"
     "computeMerkleRoot keccak256 (map leaf_hex [h1, h2, h3]) = Inr (leaf_hex root)"
    using computeMerkleRoot_root [OF assms, of "[h1, h2, h3]"] by blast
  have "root = sorted_pair_hash keccak256 (keccak256 (h1 @ h2)) h3"
    using r(1) h merkle_root_three [of h1 h2 keccak256 h3] by simp
  then show "computeMerkleRoot keccak256 (map leaf_hex [h1, h2, h3])
           = Inr (leaf_hex (sorted_pair_hash keccak256 (keccak256 (h1 @ h2)) h3))"
    using r(2) by simp
qed


text \<open>A stand-in hash with 32-byte output, and three leaves, for evaluating examples.\<close>

definition sample_hash :: "byte list \<Rightarrow> byte list" where
  "sample_hash x = map (\<lambda>b. b + 1) (take 32 (rev x @ replicate 32 0))"

definition leaf_a :: "byte list" where "leaf_a = replicate 32 1"
definition leaf_b :: "byte list" where "leaf_b = replicate 31 1 @ [2]"
definition leaf_c :: "byte list" where "leaf_c = replicate 32 255"


theorem computeMerkleRoot_sorted_pair_tree_witness:
  "computeMerkleRoot sample_hash [leaf_hex leaf_a] = Inr (leaf_hex leaf_a)
   \<and> computeMerkleRoot sample_hash (map leaf_hex [leaf_a, leaf_b])
       = Inr (leaf_hex (sample_hash (leaf_a @ leaf_b)))
   \<and> computeMerkleRoot sample_hash (map leaf_hex [leaf_a, leaf_b, leaf_c])
       = Inr (leaf_hex (sample_hash (sample_hash (leaf_a @ leaf_b) @ leaf_c)))
   \<and> sample_hash (sample_hash (leaf_a @ leaf_b) @ leaf_c) = replicate 32 0"
proof -
  have H: "\<forall>x. length (sample_hash x) = 32"
    by (auto simp add: sample_hash_def)
  have len: "length leaf_a = 32" "length leaf_b = 32" "length leaf_c = 32"
    by (simp_all add: leaf_a_def leaf_b_def leaf_c_def)
  have lt: "bytes_lt leaf_a leaf_b" "bytes_lt leaf_b leaf_c"
    by code_simp+
  have le: "bytes_le (sample_hash (leaf_a @ leaf_b)) leaf_c"
    by code_simp
  have v: "sample_hash (sample_hash (leaf_a @ leaf_b) @ leaf_c) = replicate 32 0"
    by code_simp
  note t = computeMerkleRoot_sorted_pair_tree [OF H, of "leaf_hex leaf_a" "[leaf_a, leaf_b]" leaf_a leaf_b leaf_c]
  have two: "merkle_root sample_hash [leaf_a, leaf_b] = Some (sample_hash (leaf_a @ leaf_b))"
    using lt by (simp add: sorted_pair_hash_def bytes_lt_def)
  show ?thesis
    using t len lt le v two by (simp add: sorted_pair_hash_def)
qed

section \<open>Canonical payload\<close>

text \<open>
  \<open>JSON.stringify(value, replacer)\<close> with an array as replacer. The array becomes the
  property list \<open>K\<close>, and the members of every object, at every depth, are the
  properties named in \<open>K\<close>, in the order of \<open>K\<close>; a property whose value serialises to
  \<open>undefined\<close> is left out, and such an array element is written \<open>null\<close>.
\<close>

definition dq :: char where "dq = CHR 0x22"
definition backslash :: char where "backslash = CHR 0x5C"

text \<open>\<open>QuoteJSONString\<close>.\<close>

definition quote_char :: "char \<Rightarrow> string" where
  "quote_char c =
     (let n = (of_char c :: nat) in
      if c = dq then [backslash, dq]
      else if c = backslash then [backslash, backslash]
      else if n = 8 then [backslash, CHR ''b'']
      else if n = 9 then [backslash, CHR ''t'']
      else if n = 10 then [backslash, CHR ''n'']
      else if n = 12 then [backslash, CHR ''f'']
      else if n = 13 then [backslash, CHR ''r'']
      else if n < 32 then [backslash, CHR ''u'', CHR ''0'', CHR ''0'', hex_char (n div 16), hex_char (n mod 16)]
      else [c])"

definition quote :: "string \<Rightarrow> string" where
  "quote s = [dq] @ concat (map quote_char s) @ [dq]"

text \<open>The property list keeps the first occurrence of each key.\<close>

fun property_list :: "string list \<Rightarrow> string list" where
  "property_list [] = []"
| "property_list (k # ks) = k # filter (\<lambda>x. x \<noteq> k) (property_list ks)"

text \<open>An inherited member as a property value: a function is skipped, and
  \<open>Object.prototype\<close> itself is an object whose only listed property can be \<open>__proto__\<close>.\<close>

definition stringify_builtin :: "string list \<Rightarrow> string \<Rightarrow> string option" where
  "stringify_builtin K k =
     (if k = ''__proto__'' then
        Some (''{'' @ (if ''__proto__'' \<in> set K then quote ''__proto__'' @ '':null'' else [])
              @ ''}'')
      else None)"

fun stringify :: "runtime \<Rightarrow> string list \<Rightarrow> jsval \<Rightarrow> string option" where
  "stringify rt K JUndefined = None"
| "stringify rt K JNull = Some ''null''"
| "stringify rt K (JBool b) = Some (if b then ''true'' else ''false'')"
| "stringify rt K (JNum r) = Some (case r of Finite q \<Rightarrow> numToString rt q | _ \<Rightarrow> ''null'')"
| "stringify rt K (JStr s) = Some (quote s)"
| "stringify rt K (JArr xs) =
     Some (''['' @ join_with '',''
        (map (\<lambda>x. case stringify rt K x of None \<Rightarrow> ''null'' | Some t \<Rightarrow> t) xs) @ '']'')"
| "stringify rt K (JObj kvs) =
     (let rendered = map (\<lambda>kv. (fst kv, stringify rt K (snd kv))) kvs in
      Some (''{'' @ join_with '',''
        (concat (map (\<lambda>P.
           case (case map_of rendered P of
                   Some r \<Rightarrow> r
                 | None \<Rightarrow>
                     if P \<in> set object_prototype_keys then stringify_builtin K P else None) of
             None \<Rightarrow> []
           | Some t \<Rightarrow> [quote P @ '':'' @ t]) K)) @ ''}''))"
| "stringify rt K (JBuiltin k) = stringify_builtin K k"

text \<open>\<open>Array.prototype.sort\<close> with the default comparison, on strings.\<close>

fun insert_str :: "string \<Rightarrow> string list \<Rightarrow> string list" where
  "insert_str x [] = [x]"
| "insert_str x (y # ys) = (if str_le y x then y # insert_str x ys else x # y # ys)"

definition js_sort :: "string list \<Rightarrow> string list" where
  "js_sort xs = foldl (\<lambda>acc x. insert_str x acc) [] xs"

definition cond_to_js :: "condition \<Rightarrow> jsval" where
  "cond_to_js c =
     JObj [(''field'', JStr (cond_field c)), (''op'', JStr (cond_op c)), (''value'', cond_value c)]"

definition result_to_js :: "EvalResult \<Rightarrow> jsval" where
  "result_to_js r =
     JObj [(''field'', JStr (res_field r)), (''op'', JStr (res_op r)),
           (''expected'', expected r), (''actual'', actual r), (''pass'', JBool (pass r))]"

text \<open>
  \<open>buildProofPayload\<close>; \<open>now\<close> is \<open>Date.now()\<close>, in milliseconds.
\<close>

definition buildProofPayload ::
  "runtime \<Rightarrow> nat \<Rightarrow> string \<Rightarrow> string \<Rightarrow> condition list \<Rightarrow> (string \<times> jsval) list
     \<Rightarrow> EvalResult list \<Rightarrow> bool \<Rightarrow> int \<Rightarrow> string" where
  "buildProofPayload rt now agentId ruleId conditions actionData evalResults ruleMet nonce =
     (let payload =
        [(''v'', JNum (Finite 1)),
         (''agent'', JStr agentId),
         (''rule'', JStr ruleId),
         (''conditions'', JArr (map cond_to_js conditions)),
         (''action'', JObj actionData),
         (''eval'', JArr (map result_to_js evalResults)),
         (''met'', JBool ruleMet),
         (''nonce'', JNum (Finite (of_int nonce))),
         (''ts'', JNum (Finite (of_nat (now div 1000))))]
      in case stringify rt (property_list (js_sort (map fst payload))) (JObj payload) of
           Some s \<Rightarrow> s
         | None \<Rightarrow> ''undefined'')"

text \<open>The input of the test of the full pipeline.\<close>

definition cond_x :: condition where
  "cond_x = \<lparr>cond_field = ''x'', cond_op = ''<='', cond_value = JNum (Finite 5)\<rparr>"

definition result_x :: EvalResult where
  "result_x = \<lparr>res_field = ''x'', res_op = ''<='', expected = JNum (Finite 5), actual = JNum (Finite 3), pass = True\<rparr>"


lemma sample_num_str:
  "numToString sample_runtime 1700000000 = ''1700000000''"
  "numToString sample_runtime 1 = ''1''"
  by (simp_all add: sample_runtime_def decimal.simps)

lemma payload_keys_sorted:
  "property_list (js_sort [''v'', ''agent'', ''rule'', ''conditions'', ''action'', ''eval'', ''met'', ''nonce'', ''ts''])
   = [''action'', ''agent'', ''conditions'', ''eval'', ''met'', ''nonce'', ''rule'', ''ts'', ''v'']"
  by code_simp

lemma payload_x:
  \<open>buildProofPayload sample_runtime 1700000000123 ''agent-1'' ''rule-1''
      [cond_x] [(''x'', v)] [result_x] True 1
     = ''{"action":{},"agent":"agent-1","conditions":[{}],"eval":[{}],"met":true,"nonce":1,"rule":"rule-1","ts":1700000000,"v":1}''\<close>
  unfolding buildProofPayload_def Let_def
  by (simp add: payload_keys_sorted sample_num_str cond_to_js_def result_to_js_def
      cond_x_def result_x_def quote_def quote_char_def dq_def backslash_def
      object_prototype_keys_def stringify_builtin_def Let_def)

text \<open>
  C1. The canonical payload must contain every input: every entry of the action
  record, every condition's field, op and value, and every evaluation result. The
  replacer array of \<open>buildProofPayload\<close> holds the nine top-level keys only and filters
  the nested objects too, so the action record, each condition and each evaluation
  result are written as empty objects, and two different action records give the same
  bytes.
\<close>

theorem buildProofPayload_drops_nested_entries:
  \<open>buildProofPayload sample_runtime 1700000000123 ''agent-1'' ''rule-1''
      [cond_x] [(''x'', JNum (Finite 3))] [result_x] True 1
     = ''{"action":{},"agent":"agent-1","conditions":[{}],"eval":[{}],"met":true,"nonce":1,"rule":"rule-1","ts":1700000000,"v":1}''
   \<and> buildProofPayload sample_runtime 1700000000123 ''agent-1'' ''rule-1''
      [cond_x] [(''x'', JNum (Finite 4))] [result_x] True 1
     = buildProofPayload sample_runtime 1700000000123 ''agent-1'' ''rule-1''
      [cond_x] [(''x'', JNum (Finite 3))] [result_x] True 1\<close>
  by (simp only: payload_x)

section \<open>Envelope cipher\<close>

unbundle bit_operations_syntax

subsection \<open>Strings and their UTF-8\<close>

text \<open>
  The plaintext and the stored form are JavaScript strings: sequences of 16-bit code
  units, in which a surrogate may stand unpaired. \<open>ascii_units\<close> gives the code units
  of a string of ASCII characters.
\<close>

type_synonym jsstring = "16 word list"

definition ascii_units :: "string \<Rightarrow> jsstring" where
  "ascii_units s = map (\<lambda>c. of_nat (of_char c)) s"

definition is_high :: "16 word \<Rightarrow> bool" where
  "is_high u \<longleftrightarrow> 0xD800 \<le> unat u \<and> unat u \<le> 0xDBFF"

definition is_low :: "16 word \<Rightarrow> bool" where
  "is_low u \<longleftrightarrow> 0xDC00 \<le> unat u \<and> unat u \<le> 0xDFFF"


text \<open>
  The code points a string is encoded from: a surrogate pair is one code point, and an
  unpaired surrogate is replaced by U+FFFD.
\<close>

fun code_points :: "jsstring \<Rightarrow> nat list" where
  "code_points [] = []"
| "code_points [u] = [if is_high u \<or> is_low u then 0xFFFD else unat u]"
| "code_points (u # v # rest) =
     (if is_high u \<and> is_low v then
        (0x10000 + (unat u - 0xD800) * 0x400 + (unat v - 0xDC00)) # code_points rest
      else (if is_high u \<or> is_low u then 0xFFFD else unat u) # code_points (v # rest))"

definition utf8_of :: "nat \<Rightarrow> nat list" where
  "utf8_of c =
     (if c < 0x80 then [c]
      else if c < 0x800 then [0xC0 + c div 64, 0x80 + c mod 64]
      else if c < 0x10000 then [0xE0 + c div 4096, 0x80 + c div 64 mod 64, 0x80 + c mod 64]
      else [0xF0 + c div 262144, 0x80 + c div 4096 mod 64, 0x80 + c div 64 mod 64,
            0x80 + c mod 64])"

text \<open>The bytes \<open>update(plaintext, 'utf8')\<close> encrypts.\<close>

definition utf8_encode :: "jsstring \<Rightarrow> byte list" where
  "utf8_encode s = map of_nat (concat (map utf8_of (code_points s)))"

text \<open>
  The decoder of \<open>update(.., 'utf8')\<close> and \<open>final('utf8')\<close> on the whole output, as a
  scan over the byte values: the code point being assembled, the number of bytes it
  still needs, and the bounds of the next byte. A byte that cannot continue the
  sequence ends it with U+FFFD and is read again; so does the end of the input.
\<close>

function utf8_scan :: "nat \<Rightarrow> nat \<Rightarrow> nat \<Rightarrow> nat \<Rightarrow> nat list \<Rightarrow> nat list" where
  "utf8_scan cp needed lo hi [] = (if needed = 0 then [] else [0xFFFD])"
| "utf8_scan cp needed lo hi (b # bs) =
     (if needed = 0 then
        (if b < 0x80 then b # utf8_scan 0 0 0x80 0xBF bs
         else if 0xC2 \<le> b \<and> b \<le> 0xDF then utf8_scan (b - 0xC0) 1 0x80 0xBF bs
         else if 0xE0 \<le> b \<and> b \<le> 0xEF then
           utf8_scan (b - 0xE0) 2 (if b = 0xE0 then 0xA0 else 0x80)
             (if b = 0xED then 0x9F else 0xBF) bs
         else if 0xF0 \<le> b \<and> b \<le> 0xF4 then
           utf8_scan (b - 0xF0) 3 (if b = 0xF0 then 0x90 else 0x80)
             (if b = 0xF4 then 0x8F else 0xBF) bs
         else 0xFFFD # utf8_scan 0 0 0x80 0xBF bs)
      else if b < lo \<or> hi < b then 0xFFFD # utf8_scan 0 0 0x80 0xBF (b # bs)
      else if needed = 1 then (cp * 64 + (b - 0x80)) # utf8_scan 0 0 0x80 0xBF bs
      else utf8_scan (cp * 64 + (b - 0x80)) (needed - 1) 0x80 0xBF bs)"
  by pat_completeness auto
termination
  by (relation "measure (\<lambda>(cp, needed, lo, hi, bs). 2 * length bs + (if needed = 0 then 0 else 1))")
    auto

declare utf8_scan.simps [simp del]

definition units_of :: "nat \<Rightarrow> jsstring" where
  "units_of c =
     (if c < 0x10000 then [of_nat c]
      else [of_nat (0xD800 + (c - 0x10000) div 0x400), of_nat (0xDC00 + (c - 0x10000) mod 0x400)])"

definition utf8_decode :: "byte list \<Rightarrow> jsstring" where
  "utf8_decode bs = concat (map units_of (utf8_scan 0 0 0x80 0xBF (map unat bs)))"

subsection \<open>The cipher\<close>

text \<open>
  AES-256-GCM is the crypto library's; its three parts are parameters.
  \<open>gcm_accepts key iv\<close>: \<open>createCipheriv\<close> and \<open>createDecipheriv\<close> take the key and the
  iv (they throw otherwise). \<open>gcm_ctr key iv data\<close>: the counter-mode keystream applied
  to the data, which is what \<open>update\<close> and \<open>final\<close> return, when encrypting and when
  decrypting. \<open>gcm_tag key iv ciphertext\<close>: the 16-byte authentication tag of the
  ciphertext, which \<open>getAuthTag\<close> returns and against which \<open>final\<close> checks the tag
  given to \<open>setAuthTag\<close>. \<open>setAuthTag\<close> takes a tag of 4, 8 or 12 to 16 bytes and throws
  on another length, and \<open>final\<close> compares a tag of \<open>n\<close> bytes with the first \<open>n\<close> bytes
  of the computed tag.
\<close>

record gcm =
  gcm_accepts :: "byte list \<Rightarrow> byte list \<Rightarrow> bool"
  gcm_ctr :: "byte list \<Rightarrow> byte list \<Rightarrow> byte list \<Rightarrow> byte list"
  gcm_tag :: "byte list \<Rightarrow> byte list \<Rightarrow> byte list \<Rightarrow> byte list"

datatype cipher_error =
    KeyNotLoaded
  | InvalidKeyFormat
  | InvalidEncryptedFormat
  | InvalidKeyOrIv
  | InvalidTagLength
  | InvalidHexLength
  | AuthenticationFailed

definition valid_tag_lengths :: "nat list" where
  "valid_tag_lengths = [4, 8, 12, 13, 14, 15, 16]"

definition unit_hex_val :: "16 word \<Rightarrow> nat option" where
  "unit_hex_val u = (if unat u < 128 then hex_val (char_of (unat u)) else None)"

text \<open>
  \<open>Buffer.from(s, 'hex')\<close>, which is also how \<open>update(s, 'hex')\<close> decodes: both cases of
  a digit are accepted, and decoding stops at the first pair that is not two hex digits.
\<close>

fun buffer_from_hex :: "jsstring \<Rightarrow> byte list" where
  "buffer_from_hex (c1 # c2 # rest) =
     (case (unit_hex_val c1, unit_hex_val c2) of
        (Some h, Some l) \<Rightarrow> of_nat (h * 16 + l) # buffer_from_hex rest
      | _ \<Rightarrow> [])"
| "buffer_from_hex _ = []"

text \<open>\<open>s.split(sep)\<close> for a one-character separator.\<close>

fun split_on :: "'a \<Rightarrow> 'a list \<Rightarrow> 'a list list" where
  "split_on sep [] = [[]]"
| "split_on sep (c # cs) =
     (if c = sep then [] # split_on sep cs
      else (case split_on sep cs of
              p # ps \<Rightarrow> (c # p) # ps
            | [] \<Rightarrow> [[c]]))"

definition colon :: "16 word" where
  "colon = 0x3A"

definition loadEncryptionKey :: "jsstring option \<Rightarrow> cipher_error + byte list" where
  "loadEncryptionKey keyHex =
     (case keyHex of
        None \<Rightarrow> Inl InvalidKeyFormat
      | Some h \<Rightarrow> if h = [] \<or> length h \<noteq> 64 then Inl InvalidKeyFormat
                  else Inr (buffer_from_hex h))"

text \<open>
  \<open>encrypt\<close> and \<open>decrypt\<close>. The module variable \<open>_encryptionKey\<close> is the argument
  \<open>encryptionKey\<close> (\<open>None\<close> before \<open>loadEncryptionKey\<close>), and \<open>iv\<close> is what
  \<open>randomBytes(12)\<close> returned. In \<open>decrypt\<close> the steps that can throw are, in the order
  of the source: \<open>createDecipheriv\<close>, \<open>setAuthTag\<close>, \<open>update\<close> (which refuses a hex
  string with an odd number of characters) and \<open>final\<close>.
\<close>

definition encrypt ::
  "gcm \<Rightarrow> byte list option \<Rightarrow> byte list \<Rightarrow> jsstring \<Rightarrow> cipher_error + jsstring" where
  "encrypt g encryptionKey iv plaintext =
     (case encryptionKey of
        None \<Rightarrow> Inl KeyNotLoaded
      | Some key \<Rightarrow>
          if \<not> gcm_accepts g key iv then Inl InvalidKeyOrIv
          else
            (let encrypted = gcm_ctr g key iv (utf8_encode plaintext);
                 tag = gcm_tag g key iv encrypted
             in Inr (ascii_units (bytesToHex iv) @ [colon] @ ascii_units (bytesToHex tag)
                     @ [colon] @ ascii_units (bytesToHex encrypted))))"

definition decrypt ::
  "gcm \<Rightarrow> byte list option \<Rightarrow> jsstring \<Rightarrow> cipher_error + jsstring" where
  "decrypt g encryptionKey encrypted =
     (case encryptionKey of
        None \<Rightarrow> Inl KeyNotLoaded
      | Some key \<Rightarrow>
          (let parts = split_on colon encrypted in
           if length parts \<noteq> 3 then Inl InvalidEncryptedFormat
           else
             (let iv = buffer_from_hex (parts ! 0);
                  tag = buffer_from_hex (parts ! 1);
                  ciphertext = parts ! 2
              in if \<not> gcm_accepts g key iv then Inl InvalidKeyOrIv
                 else if length tag \<notin> set valid_tag_lengths then Inl InvalidTagLength
                 else if odd (length ciphertext) then Inl InvalidHexLength
                 else if take (length tag) (gcm_tag g key iv (buffer_from_hex ciphertext)) \<noteq> tag
                 then Inl AuthenticationFailed
                 else Inr (utf8_decode (gcm_ctr g key iv (buffer_from_hex ciphertext))))))"

text \<open>
  What the model assumes of AES-256-GCM: a 32-byte key and a 12-byte iv are accepted and
  applying their keystream twice gives the data back, and every tag has 16 bytes.
\<close>

definition gcm_correct :: "gcm \<Rightarrow> bool" where
  "gcm_correct g \<longleftrightarrow>
     (\<forall>key iv. length key = 32 \<and> length iv = 12 \<longrightarrow>
        gcm_accepts g key iv \<and> (\<forall>p. gcm_ctr g key iv (gcm_ctr g key iv p) = p))
     \<and> (\<forall>key iv c. length (gcm_tag g key iv c) = 16)"

text \<open>The stored form of an iv, a tag and a ciphertext, and the three parts a stored
  form decodes to.\<close>

definition stored_form :: "byte list \<Rightarrow> byte list \<Rightarrow> byte list \<Rightarrow> jsstring" where
  "stored_form iv tag ct =
     ascii_units (bytesToHex iv) @ [colon] @ ascii_units (bytesToHex tag) @ [colon]
       @ ascii_units (bytesToHex ct)"





subsection \<open>UTF-8 round trip\<close>

















subsection \<open>The stored form\<close>

lemma unat_ascii_unit: "unat (of_nat (of_char c :: nat) :: 16 word) = of_char c"
proof -
  have "(of_char c :: nat) < 256" by (rule nat_of_char_less_256)
  then have "(of_char c :: nat) < 65536" by linarith
  then have "(of_char c :: nat) mod 65536 = of_char c" by (rule mod_less)
  then show ?thesis by (simp add: unat_of_nat)
qed

lemma unit_hex_val_ascii: "unit_hex_val (of_nat (of_char c :: nat)) = hex_val c"
proof (cases "(of_char c :: nat) < 128")
  case True
  then show ?thesis by (simp add: unit_hex_val_def unat_ascii_unit)
next
  case False
  then have "hex_val c = None" by (simp add: hex_val_def Let_def)
  then show ?thesis using False by (simp add: unit_hex_val_def unat_ascii_unit)
qed

lemma buffer_from_hex_bytesToHex: "buffer_from_hex (ascii_units (bytesToHex bs)) = bs"
  by (induction bs)
    (simp_all add: ascii_units_def bytesToHex_def unit_hex_val_ascii hex_val_hex_char
      unat_byte_div)

lemma hex_char_not_colon: "n < 16 \<Longrightarrow> hex_char n \<noteq> CHR '':''"
proof
  assume "n < 16" and "hex_char n = CHR '':''"
  then have "(of_char (hex_char n) :: nat) = 58" by simp
  then show False using hex_char_code [OF \<open>n < 16\<close>] by (simp split: if_splits)
qed

lemma bytesToHex_no_colon: "CHR '':'' \<notin> set (bytesToHex bs)"
proof (induction bs)
  case Nil
  show ?case by (simp add: bytesToHex_def)
next
  case (Cons b bs)
  have "hex_char (unat b div 16) \<noteq> CHR '':''" "hex_char (unat b mod 16) \<noteq> CHR '':''"
    by (simp_all add: hex_char_not_colon unat_byte_div)
  then show ?case using Cons by (auto simp add: bytesToHex_def)
qed

lemma colon_not_hex: "colon \<notin> set (ascii_units (bytesToHex bs))"
proof
  assume "colon \<in> set (ascii_units (bytesToHex bs))"
  then obtain c where c: "c \<in> set (bytesToHex bs)"
    and e: "colon = (of_nat (of_char c :: nat) :: 16 word)"
    by (auto simp add: ascii_units_def)
  have "unat colon = 58" by (simp add: colon_def)
  then have "(of_char c :: nat) = 58" unfolding e unat_ascii_unit .
  then have "(of_char c :: nat) = of_char CHR '':''" by simp
  then have "c = CHR '':''" by (simp only: of_char_eq_iff)
  then show False using c bytesToHex_no_colon by simp
qed

lemma split_on_no_sep: "sep \<notin> set a \<Longrightarrow> split_on sep a = [a]"
  by (induction a) auto

lemma split_on_append: "sep \<notin> set a \<Longrightarrow> split_on sep (a @ sep # rest) = a # split_on sep rest"
  by (induction a) auto

lemma split_three:
  "sep \<notin> set a \<Longrightarrow> sep \<notin> set b \<Longrightarrow> sep \<notin> set c \<Longrightarrow>
   split_on sep (a @ [sep] @ b @ [sep] @ c) = [a, b, c]"
  by (simp add: split_on_append split_on_no_sep)

lemma split_stored:
  "split_on colon (stored_form a b c)
     = [ascii_units (bytesToHex a), ascii_units (bytesToHex b), ascii_units (bytesToHex c)]"
  using split_three [OF colon_not_hex colon_not_hex colon_not_hex, of a b c]
  by (simp add: stored_form_def)

lemma bytesToHex_length: "length (bytesToHex bs) = 2 * length bs"
  by (induction bs) (simp_all add: bytesToHex_def)


lemma length_ascii_units: "length (ascii_units s) = length s"
  by (simp add: ascii_units_def)




text \<open>A stand-in cipher with the assumed properties, for evaluating examples. Its tag
  spells out a 12-byte iv and a ciphertext of up to three bytes.\<close>

definition sample_gcm :: gcm where
  "sample_gcm =
     \<lparr>gcm_accepts = (\<lambda>key iv. length key = 32 \<and> iv \<noteq> []),
      gcm_ctr = (\<lambda>key iv p. map (\<lambda>b. b XOR 0x5A) p),
      gcm_tag = (\<lambda>key iv ct.
        if length iv = 12 \<and> length ct \<le> 3
        then iv @ ct @ replicate (3 - length ct) 0 @ [of_nat (length ct)]
        else replicate 16 0xFF)\<rparr>"

definition key0 :: "byte list" where "key0 = replicate 32 7"
definition iv0 :: "byte list" where "iv0 = replicate 12 0xAB"

text \<open>The string "hi", its UTF-8 under the stand-in keystream, and the tag of that.\<close>

definition hi :: jsstring where "hi = [0x68, 0x69]"
definition ct0 :: "byte list" where "ct0 = [0x32, 0x33]"
definition tag0 :: "byte list" where "tag0 = replicate 12 0xAB @ [0x32, 0x33, 0, 2]"

lemma xor_twice: "((x :: byte) XOR c) XOR c = x"
  by (simp add: xor.assoc)

lemma sample_gcm_correct: "gcm_correct sample_gcm"
  by (auto simp add: gcm_correct_def sample_gcm_def comp_def xor_twice)



lemma replicate12: "replicate 12 x = [x, x, x, x, x, x, x, x, x, x, x, x]"
  by (simp add: eval_nat_numeral)


lemma sample_accepts: "gcm_accepts sample_gcm key0 iv0"
  by (simp add: sample_gcm_def key0_def iv0_def)









lemma hi_decoded: "utf8_decode (gcm_ctr sample_gcm key0 iv0 ct0) = hi"
  by (simp add: sample_gcm_def ct0_def hi_def utf8_decode_def utf8_scan.simps units_of_def)

lemma sample_tag0: "gcm_tag sample_gcm key0 iv0 ct0 = tag0"
  by (simp add: sample_gcm_def iv0_def ct0_def tag0_def)



text \<open>
  A tag cut to its first four bytes is accepted as well: \<open>setAuthTag\<close> is given no
  expected length.
\<close>

lemma truncated_tag_accepted:
  "decrypt sample_gcm (Some key0) (stored_form iv0 (take 4 tag0) ct0) = Inr hi"
proof -
  have t: "take 4 tag0 = [0xAB, 0xAB, 0xAB, 0xAB]" by (simp add: tag0_def replicate12)
  show ?thesis
    unfolding decrypt_def Let_def split_stored
    using sample_accepts sample_tag0 hi_decoded
    by (simp add: buffer_from_hex_bytesToHex valid_tag_lengths_def length_ascii_units
        bytesToHex_length t tag0_def replicate12)
qed



section \<open>Attestation coordinator\<close>

text \<open>
  The pricing tiers (name, display name and feature list left out), and the rows of the
  tables the coordinator reads and writes, with the columns it uses. The columns
  \<open>proof_nonce\<close>, \<open>used_proofs_this_month\<close> and \<open>nonce\<close> are 32-bit \<open>INT\<close>s.
\<close>

record TierConfig =
  base_fee :: rat
  monthly_limit :: int
  overage_rate :: rat

definition TIERS :: "string \<Rightarrow> TierConfig option" where
  "TIERS = map_of
     [(''free'', \<lparr>base_fee = 0, monthly_limit = 10, overage_rate = 0\<rparr>),
      (''starter'', \<lparr>base_fee = 999 / 100, monthly_limit = 1000, overage_rate = 15 / 1000\<rparr>),
      (''growth'', \<lparr>base_fee = 99, monthly_limit = 10000, overage_rate = 12 / 1000\<rparr>),
      (''enterprise'', \<lparr>base_fee = 0, monthly_limit = 100000, overage_rate = 0\<rparr>)]"

record agent_row =
  agent_user_id :: string
  agent_status :: string
  proof_nonce :: int

record user_row =
  user_tier :: string
  used_proofs_this_month :: int

record rule_row =
  rule_agent_id :: string
  rule_conditions :: "jsval list"
  rule_status :: string

record proof_row =
  proof_id :: string
  proof_agent_id :: string
  proof_rule_id :: string
  proof_action_data :: "(string \<times> jsval) list"
  proof_evaluation :: "EvalResult list"
  proof_rule_met :: bool
  decision_summary :: string
  proof_hash :: string
  signature_encrypted :: jsstring
  nonce :: int
  proof_cost :: rat
  created_at :: nat

record db =
  agents :: "string \<rightharpoonup> agent_row"
  users :: "string \<rightharpoonup> user_row"
  rules :: "string \<rightharpoonup> rule_row"
  proofs :: "proof_row list"

text \<open>
  The process-wide crypto state: the keys (\<open>None\<close> until loaded) and the library
  functions \<open>keccak256\<close>, \<open>secp256k1.sign\<close> (\<open>r\<close>, \<open>s\<close>, recovery; no result when it
  throws) and AES-256-GCM, as parameters.
\<close>

record crypto =
  runtime_of :: runtime
  keccak256 :: "byte list \<Rightarrow> byte list"
  secp256k1_sign :: "byte list \<Rightarrow> byte list \<Rightarrow> (nat \<times> nat \<times> nat) option"
  aes_gcm :: gcm
  privateKey :: "byte list option"
  encryptionKey :: "byte list option"

datatype issue_error =
    SigningKeyNotLoaded
  | SigningFailed
  | CipherError cipher_error
  | NoRowReturned
  | IntegerOutOfRange
  | ValueTooLong
  | UniqueViolation string

text \<open>The payload is a byte string, so \<open>TextEncoder\<close> gives its bytes as they are.\<close>

definition utf8_bytes :: "string \<Rightarrow> byte list" where
  "utf8_bytes s = map (\<lambda>c. of_nat (of_char c)) s"

definition hashPayload :: "crypto \<Rightarrow> string \<Rightarrow> string" where
  "hashPayload cr normalized = ''0x'' @ bytesToHex (keccak256 cr (utf8_bytes normalized))"

text \<open>\<open>n.toString(16)\<close> for a non-negative integer.\<close>

function hex_of_nat :: "nat \<Rightarrow> string" where
  "hex_of_nat n =
     (if n < 16 then [hex_char n] else hex_of_nat (n div 16) @ [hex_char (n mod 16)])"
  by pat_completeness auto
termination
  by (relation "measure id") auto

declare hex_of_nat.simps [simp del]

definition padStart :: "nat \<Rightarrow> char \<Rightarrow> string \<Rightarrow> string" where
  "padStart n c s = replicate (n - length s) c @ s"

definition signProof :: "crypto \<Rightarrow> string \<Rightarrow> issue_error + string" where
  "signProof cr proofHash =
     (case privateKey cr of
        None \<Rightarrow> Inl SigningKeyNotLoaded
      | Some key \<Rightarrow>
          (case hexToBytes (drop 2 proofHash) of
             None \<Rightarrow> Inl SigningFailed
           | Some msgBytes \<Rightarrow>
               (case secp256k1_sign cr msgBytes key of
                  None \<Rightarrow> Inl SigningFailed
                | Some (r, s, recovery) \<Rightarrow>
                    Inr (''0x'' @ padStart 64 CHR ''0'' (hex_of_nat r)
                         @ padStart 64 CHR ''0'' (hex_of_nat s)
                         @ (if recovery = 0 then ''1b'' else ''1c'')))))"

record GeneratedProof =
  gen_proof_hash :: string
  gen_signature_encrypted :: jsstring
  gen_nonce :: int
  gen_timestamp :: nat

text \<open>
  \<open>generateProof\<close>; \<open>now\<close> is what both calls of \<open>Date.now()\<close> returned and \<open>iv\<close> what
  \<open>randomBytes(12)\<close> returned.
\<close>

definition generateProof ::
  "crypto \<Rightarrow> nat \<Rightarrow> byte list \<Rightarrow> string \<Rightarrow> string \<Rightarrow> condition list
     \<Rightarrow> (string \<times> jsval) list \<Rightarrow> EvalResult list \<Rightarrow> bool \<Rightarrow> int
     \<Rightarrow> issue_error + GeneratedProof" where
  "generateProof cr now iv agentId ruleId conditions actionData evalResults ruleMet n =
     (let payload = buildProofPayload (runtime_of cr) now agentId ruleId conditions actionData
                      evalResults ruleMet n;
          proofHash = hashPayload cr payload
      in case signProof cr proofHash of
           Inl e \<Rightarrow> Inl e
         | Inr signature \<Rightarrow>
             (case encrypt (aes_gcm cr) (encryptionKey cr) iv (ascii_units signature) of
                Inl e \<Rightarrow> Inl (CipherError e)
              | Inr signatureEncrypted \<Rightarrow>
                  Inr \<lparr>gen_proof_hash = proofHash,
                       gen_signature_encrypted = signatureEncrypted,
                       gen_nonce = n,
                       gen_timestamp = now div 1000\<rparr>))"


subsection \<open>POST /api/prove\<close>

text \<open>
  A reply is its status and code, or the created proof. A request carries what the
  handler takes from outside: the agent its API key resolves to, the result of
  \<open>ProveSchema.safeParse\<close> (the message of the first issue, or \<open>rule_id\<close> and
  \<open>action_data\<close>), the clock, the id the database generates for the new row, and the
  random iv.
\<close>

datatype response = Reply nat string | Created proof_row

fun is_created :: "response \<Rightarrow> bool" where
  "is_created (Created row) = True"
| "is_created (Reply st c) = False"

record request =
  rq_agent_id :: string
  rq_parsed :: "string + (string \<times> (string \<times> jsval) list)"
  rq_now :: nat
  rq_row_id :: string
  rq_iv :: "byte list"

text \<open>A stored condition read as a \<open>Condition\<close>; exact on a validated condition.\<close>

definition as_condition :: "jsval \<Rightarrow> condition" where
  "as_condition c =
     \<lparr>cond_field = (case js_get (own_props c) ''field'' of JStr s \<Rightarrow> s | _ \<Rightarrow> []),
      cond_op = (case js_get (own_props c) ''op'' of JStr s \<Rightarrow> s | _ \<Rightarrow> []),
      cond_value = js_get (own_props c) ''value''\<rparr>"

definition costPerProof :: "string \<Rightarrow> rat" where
  "costPerProof tier =
     (if tier = ''free'' then 0
      else (case TIERS tier of
              None \<Rightarrow> (999 / 100) / 1000
            | Some t \<Rightarrow>
                (if base_fee t = 0 then 999 / 100 else base_fee t)
                / (if monthly_limit t = 0 then 1000 else of_int (monthly_limit t))))"

definition INT_MAX :: int where
  "INT_MAX = 2147483647"

text \<open>
  The callback of \<open>transaction\<close>: the counter update with \<open>RETURNING\<close>,
  \<open>generateProof\<close>, the insert (primary key, unique \<open>proof_hash\<close>, column widths) and
  the usage update, each on the state the previous step left. An update that matches no
  agent row returns no row, and reading its first row throws; an update that matches no
  user row changes nothing. The rounding of \<open>proof_cost\<close> to its column's scale is left out.
\<close>

definition prove_atomic_section ::
  "crypto \<Rightarrow> request \<Rightarrow> string \<Rightarrow> string \<Rightarrow> string \<Rightarrow> string
     \<Rightarrow> jsval list \<Rightarrow> (string \<times> jsval) list \<Rightarrow> RuleEvaluation
     \<Rightarrow> db \<Rightarrow> issue_error + (proof_row \<times> db)" where
  "prove_atomic_section cr rq agentId userId tier ruleId conditions actionData ruleEval d =
     (case agents d agentId of
        None \<Rightarrow> Inl NoRowReturned
      | Some a \<Rightarrow>
          if proof_nonce a + 1 > INT_MAX then Inl IntegerOutOfRange
          else
            (let n = proof_nonce a + 1;
                 d1 = d\<lparr>agents := (agents d)(agentId \<mapsto> a\<lparr>proof_nonce := n\<rparr>)\<rparr>
             in case generateProof cr (rq_now rq) (rq_iv rq) agentId ruleId
                       (map as_condition conditions) actionData (evaluation ruleEval)
                       (rule_met ruleEval) n of
                  Inl e \<Rightarrow> Inl e
                | Inr generated \<Rightarrow>
                    (let row = \<lparr>proof_id = rq_row_id rq,
                                  proof_agent_id = agentId,
                                  proof_rule_id = ruleId,
                                  proof_action_data = actionData,
                                  proof_evaluation = evaluation ruleEval,
                                  proof_rule_met = rule_met ruleEval,
                                  decision_summary = summary ruleEval,
                                  proof_hash = gen_proof_hash generated,
                                  signature_encrypted = gen_signature_encrypted generated,
                                  nonce = n,
                                  proof_cost = costPerProof tier,
                                  created_at = rq_now rq\<rparr>
                     in if length (summary ruleEval) > 255 \<or> length (gen_proof_hash generated) > 66
                        then Inl ValueTooLong
                        else if list_ex (\<lambda>p. proof_id p = rq_row_id rq) (proofs d1)
                        then Inl (UniqueViolation ''proofs_pkey'')
                        else if list_ex (\<lambda>p. proof_hash p = gen_proof_hash generated) (proofs d1)
                        then Inl (UniqueViolation ''proofs_proof_hash_key'')
                        else
                          (let d2 = d1\<lparr>proofs := proofs d1 @ [row]\<rparr>
                           in case users d2 userId of
                                None \<Rightarrow> Inr (row, d2)
                              | Some u \<Rightarrow>
                                  if used_proofs_this_month u + 1 > INT_MAX
                                  then Inl IntegerOutOfRange
                                  else Inr (row,
                                    d2\<lparr>users := (users d2)(userId \<mapsto>
                                      u\<lparr>used_proofs_this_month :=
                                         used_proofs_this_month u + 1\<rparr>)\<rparr>)))))"

text \<open>\<open>BEGIN\<close>, the callback, \<open>COMMIT\<close>; on an error \<open>ROLLBACK\<close> and rethrow.\<close>

definition transaction :: "(db \<Rightarrow> issue_error + ('a \<times> db)) \<Rightarrow> db \<Rightarrow> (issue_error + 'a) \<times> db" where
  "transaction fn d =
     (case fn d of
        Inl err \<Rightarrow> (Inl err, d)
      | Inr (result, d') \<Rightarrow> (Inr result, d'))"

text \<open>
  The handler up to the transaction: the checks in the order of the source, then the
  evaluation. An error thrown by \<open>validateConditions\<close> reaches the error handler, which
  replies 500.
\<close>

definition prove_precheck ::
  "crypto \<Rightarrow> request \<Rightarrow> string \<Rightarrow> user_row \<Rightarrow> db
     \<Rightarrow> response + (string \<times> rule_row \<times> (string \<times> jsval) list \<times> RuleEvaluation)" where
  "prove_precheck cr rq agentId user d =
     (case rq_parsed rq of
        Inl message \<Rightarrow> Inl (Reply 400 ''VALIDATION_ERROR'')
      | Inr (rule_id, action_data) \<Rightarrow>
          (case TIERS (user_tier user) of
             None \<Rightarrow> Inl (Reply 500 ''INTERNAL_ERROR'')
           | Some tier \<Rightarrow>
               if user_tier user = ''free'' \<and> used_proofs_this_month user \<ge> monthly_limit tier
               then Inl (Reply 402 ''QUOTA_EXCEEDED'')
               else
                 (case rules d rule_id of
                    None \<Rightarrow> Inl (Reply 404 ''RULE_NOT_FOUND'')
                  | Some rule \<Rightarrow>
                      if rule_agent_id rule \<noteq> agentId then Inl (Reply 403 ''RULE_MISMATCH'')
                      else if rule_status rule \<noteq> ''active'' then Inl (Reply 403 ''RULE_ARCHIVED'')
                      else
                        (case validateConditions (rule_conditions rule) of
                           Inl thrown \<Rightarrow> Inl (Reply 500 ''INTERNAL_ERROR'')
                         | Inr condCheck \<Rightarrow>
                             if condCheck \<noteq> Valid then Inl (Reply 500 ''RULE_CORRUPT'')
                             else Inr (rule_id, rule, action_data,
                                    evaluateRule (runtime_of cr)
                                      (map as_condition (rule_conditions rule))
                                      action_data)))))"

text \<open>The handler. An error thrown by the transaction reaches the error handler, which replies 500.\<close>

definition post_api_prove ::
  "crypto \<Rightarrow> request \<Rightarrow> string \<Rightarrow> string \<Rightarrow> user_row \<Rightarrow> db \<Rightarrow> response \<times> db" where
  "post_api_prove cr rq agentId userId user d =
     (case prove_precheck cr rq agentId user d of
        Inl reply \<Rightarrow> (reply, d)
      | Inr (rule_id, rule, action_data, ruleEval) \<Rightarrow>
          (case transaction
                  (prove_atomic_section cr rq agentId userId (user_tier user) rule_id
                     (rule_conditions rule) action_data ruleEval) d of
             (Inl err, d') \<Rightarrow> (Reply 500 ''INTERNAL_ERROR'', d')
           | (Inr row, d') \<Rightarrow> (Created row, d')))"

text \<open>
  The middleware \<open>requireApiKey\<close>, whose body HANDOFF.md lists, resolves the credential
  to an agent and its owning user, and replies 401 for an unknown key or user and 403
  for an agent that is not active. The issue-attestation operation is the middleware
  followed by the handler.
\<close>

definition issue :: "crypto \<Rightarrow> db \<Rightarrow> request \<Rightarrow> response \<times> db" where
  "issue cr d rq =
     (case agents d (rq_agent_id rq) of
        None \<Rightarrow> (Reply 401 ''AUTH_INVALID_KEY'', d)
      | Some agent \<Rightarrow>
          if agent_status agent \<noteq> ''active'' then (Reply 403 ''AGENT_SUSPENDED'', d)
          else
            (case users d (agent_user_id agent) of
               None \<Rightarrow> (Reply 401 ''AUTH_INVALID_KEY'', d)
             | Some user \<Rightarrow>
                 post_api_prove cr rq (rq_agent_id rq) (agent_user_id agent) user d))"

text \<open>A sequence of requests, each on the state the previous one left.\<close>

fun run :: "crypto \<Rightarrow> db \<Rightarrow> request list \<Rightarrow> response list \<times> db" where
  "run cr d [] = ([], d)"
| "run cr d (rq # rqs) =
     (case issue cr d rq of
        (resp, d1) \<Rightarrow> (case run cr d1 rqs of (resps, d2) \<Rightarrow> (resp # resps, d2)))"

lemma transaction_failure: "fn d = Inl err \<Longrightarrow> transaction fn d = (Inl err, d)"
  by (simp add: transaction_def)

lemma atomic_section_success:
  assumes "prove_atomic_section cr rq agentId userId tier ruleId conditions actionData ruleEval d
             = Inr (row, d')"
  shows "\<exists>a. agents d agentId = Some a
          \<and> nonce row = proof_nonce a + 1
          \<and> proof_agent_id row = agentId
          \<and> agents d' = (agents d)(agentId \<mapsto> a\<lparr>proof_nonce := proof_nonce a + 1\<rparr>)
          \<and> proofs d' = proofs d @ [row]
          \<and> rules d' = rules d"
  using assms
  by (auto simp add: prove_atomic_section_def Let_def
      split: option.splits sum.splits if_splits)


lemma post_api_prove_cases:
  assumes "post_api_prove cr rq agentId userId user d = (resp, d')"
  shows "(\<not> is_created resp \<and> d' = d)
       \<or> (\<exists>row rule_id conds action_data ruleEval.
            resp = Created row
            \<and> prove_atomic_section cr rq agentId userId (user_tier user) rule_id
                  conds action_data ruleEval d = Inr (row, d'))"
proof (cases "prove_precheck cr rq agentId user d")
  case (Inl reply)
  have "\<not> is_created reply"
    using Inl
    by (auto simp add: prove_precheck_def split: sum.splits option.splits if_splits prod.splits)
  then show ?thesis using assms Inl by (auto simp add: post_api_prove_def)
next
  case (Inr ctx)
  obtain rule_id rule action_data ruleEval where ctx: "ctx = (rule_id, rule, action_data, ruleEval)"
    by (cases ctx) auto
  show ?thesis
  proof (cases "prove_atomic_section cr rq agentId userId (user_tier user) rule_id
                  (rule_conditions rule) action_data ruleEval d")
    case (Inl err)
    then show ?thesis
      using assms Inr ctx by (auto simp add: post_api_prove_def transaction_def)
  next
    case (Inr res)
    obtain row d2 where res: "res = (row, d2)" by (cases res) auto
    have "resp = Created row" "d' = d2"
      using assms \<open>prove_precheck cr rq agentId user d = Inr ctx\<close> ctx Inr res
      by (simp_all add: post_api_prove_def transaction_def)
    then show ?thesis using Inr res by blast
  qed
qed

lemma issue_cases:
  assumes "issue cr d rq = (resp, d')"
  shows "(\<not> is_created resp \<and> d' = d)
       \<or> (\<exists>row a. resp = Created row
            \<and> agents d (rq_agent_id rq) = Some a
            \<and> nonce row = proof_nonce a + 1
            \<and> proof_agent_id row = rq_agent_id rq
            \<and> agents d' = (agents d)(rq_agent_id rq \<mapsto> a\<lparr>proof_nonce := proof_nonce a + 1\<rparr>)
            \<and> proofs d' = proofs d @ [row])"
proof (cases "agents d (rq_agent_id rq)")
  case None
  then show ?thesis using assms by (auto simp add: issue_def)
next
  case (Some agent)
  show ?thesis
  proof (cases "agent_status agent \<noteq> ''active'' \<or> users d (agent_user_id agent) = None")
    case True
    then have "resp = Reply 403 ''AGENT_SUSPENDED'' \<or> resp = Reply 401 ''AUTH_INVALID_KEY''" "d' = d"
      using assms Some by (auto simp add: issue_def split: if_splits)
    then show ?thesis by auto
  next
    case False
    then obtain user where u: "users d (agent_user_id agent) = Some user" by auto
    have "post_api_prove cr rq (rq_agent_id rq) (agent_user_id agent) user d = (resp, d')"
      using assms Some False u by (simp add: issue_def)
    from post_api_prove_cases [OF this] show ?thesis
    proof
      assume "\<not> is_created resp \<and> d' = d"
      then show ?thesis by simp
    next
      assume "\<exists>row rule_id conds action_data ruleEval.
            resp = Created row
            \<and> prove_atomic_section cr rq (rq_agent_id rq) (agent_user_id agent) (user_tier user)
                  rule_id conds action_data ruleEval d = Inr (row, d')"
      then obtain row rule_id conds action_data ruleEval where
        r: "resp = Created row"
        and a: "prove_atomic_section cr rq (rq_agent_id rq) (agent_user_id agent) (user_tier user)
                  rule_id conds action_data ruleEval d = Inr (row, d')"
        by blast
      from atomic_section_success [OF a] r show ?thesis by blast
    qed
  qed
qed

text \<open>The persisted nonces of an agent's proofs, its counter, and the number of its successful requests.\<close>

definition agent_nonces :: "string \<Rightarrow> db \<Rightarrow> int list" where
  "agent_nonces A d = map nonce (filter (\<lambda>p. proof_agent_id p = A) (proofs d))"

definition agent_counter :: "string \<Rightarrow> db \<Rightarrow> int option" where
  "agent_counter A d = map_option proof_nonce (agents d A)"

fun successes :: "string \<Rightarrow> request list \<Rightarrow> response list \<Rightarrow> nat" where
  "successes A (rq # rqs) (resp # resps) =
     (if rq_agent_id rq = A \<and> is_created resp then 1 else 0) + successes A rqs resps"
| "successes A _ _ = 0"

lemma issue_step:
  assumes "issue cr d rq = (resp, d')"
    and "agent_counter A d = Some (int k)"
    and "agent_nonces A d = map int [1..<Suc k]"
  shows "agent_counter A d' = Some (int (k + (if rq_agent_id rq = A \<and> is_created resp then 1 else 0)))
       \<and> agent_nonces A d'
           = map int [1..<Suc (k + (if rq_agent_id rq = A \<and> is_created resp then 1 else 0))]"
  using issue_cases [OF assms(1)]
proof
  assume "\<not> is_created resp \<and> d' = d"
  then show ?thesis using assms(2,3) by simp
next
  assume "\<exists>row a. resp = Created row
            \<and> agents d (rq_agent_id rq) = Some a
            \<and> nonce row = proof_nonce a + 1
            \<and> proof_agent_id row = rq_agent_id rq
            \<and> agents d' = (agents d)(rq_agent_id rq \<mapsto> a\<lparr>proof_nonce := proof_nonce a + 1\<rparr>)
            \<and> proofs d' = proofs d @ [row]"
  then obtain row a where r: "resp = Created row"
    and a: "agents d (rq_agent_id rq) = Some a"
    and n: "nonce row = proof_nonce a + 1"
    and pa: "proof_agent_id row = rq_agent_id rq"
    and ag: "agents d' = (agents d)(rq_agent_id rq \<mapsto> a\<lparr>proof_nonce := proof_nonce a + 1\<rparr>)"
    and pr: "proofs d' = proofs d @ [row]"
    by blast
  show ?thesis
  proof (cases "rq_agent_id rq = A")
    case True
    have "proof_nonce a = int k" using assms(2) a True by (simp add: agent_counter_def)
    then show ?thesis
      using True r n pa ag pr assms(3)
      by (simp add: agent_counter_def agent_nonces_def)
  next
    case False
    then show ?thesis
      using r pa ag pr assms(2,3)
      by (simp add: agent_counter_def agent_nonces_def)
  qed
qed

lemma run_invariant:
  "run cr d rqs = (resps, d') \<Longrightarrow> agent_counter A d = Some (int k) \<Longrightarrow>
   agent_nonces A d = map int [1..<Suc k] \<Longrightarrow>
   agent_counter A d' = Some (int (k + successes A rqs resps))
     \<and> agent_nonces A d' = map int [1..<Suc (k + successes A rqs resps)]"
proof (induction rqs arbitrary: d resps k)
  case Nil
  then show ?case by simp
next
  case (Cons rq rqs)
  obtain resp d1 where i: "issue cr d rq = (resp, d1)" by (cases "issue cr d rq") auto
  obtain resps1 where r: "run cr d1 rqs = (resps1, d')" and e: "resps = resp # resps1"
    using Cons.prems(1) i by (auto split: prod.splits)
  let ?k1 = "k + (if rq_agent_id rq = A \<and> is_created resp then 1 else 0)"
  have s: "agent_counter A d1 = Some (int ?k1)" "agent_nonces A d1 = map int [1..<Suc ?k1]"
    using issue_step [OF i Cons.prems(2) Cons.prems(3)] by simp_all
  have "agent_counter A d' = Some (int (?k1 + successes A rqs resps1))
     \<and> agent_nonces A d' = map int [1..<Suc (?k1 + successes A rqs resps1)]"
    using Cons.IH [OF r s] .
  then show ?case using e by (simp add: add.assoc)
qed


subsection \<open>When the pipeline succeeds\<close>

lemma encrypt_succeeds:
  assumes "gcm_correct g" and "length key = 32" and "length iv = 12"
  shows "\<exists>c. encrypt g (Some key) iv s = Inr c"
proof -
  have "gcm_accepts g key iv"
    using assms unfolding gcm_correct_def by blast
  then show ?thesis by (simp add: encrypt_def Let_def)
qed

lemma signProof_hashPayload:
  assumes "privateKey cr = Some k"
    and "secp256k1_sign cr (keccak256 cr (utf8_bytes p)) k = Some sg"
  shows "\<exists>signature. signProof cr (hashPayload cr p) = Inr signature"
  using assms
  by (cases sg) (simp add: signProof_def hashPayload_def hexToBytes_bytesToHex)

lemma generateProof_succeeds:
  assumes "privateKey cr = Some k"
    and "\<forall>m. secp256k1_sign cr m k \<noteq> None"
    and "encryptionKey cr = Some ek" and "length ek = 32" and "length iv = 12"
    and "gcm_correct (aes_gcm cr)"
  shows "\<exists>g. generateProof cr now iv agentId ruleId conditions actionData evalResults ruleMet n
             = Inr g
           \<and> gen_proof_hash g = hashPayload cr (buildProofPayload (runtime_of cr) now agentId
                 ruleId conditions actionData evalResults ruleMet n)"
proof -
  let ?p = "buildProofPayload (runtime_of cr) now agentId ruleId conditions actionData
              evalResults ruleMet n"
  have "secp256k1_sign cr (keccak256 cr (utf8_bytes ?p)) k \<noteq> None"
    using assms(2) by blast
  then obtain sg where "secp256k1_sign cr (keccak256 cr (utf8_bytes ?p)) k = Some sg"
    by (cases "secp256k1_sign cr (keccak256 cr (utf8_bytes ?p)) k") simp_all
  then obtain signature where sg: "signProof cr (hashPayload cr ?p) = Inr signature"
    using signProof_hashPayload [OF assms(1)] by blast
  obtain c where c: "encrypt (aes_gcm cr) (Some ek) iv (ascii_units signature) = Inr c"
    using encrypt_succeeds [OF assms(6) assms(4) assms(5)] by blast
  show ?thesis
    by (simp add: generateProof_def Let_def sg c assms(3))
qed

lemma hashPayload_length:
  assumes "\<forall>x. length (keccak256 cr x) = 32"
  shows "length (hashPayload cr p) = 66"
  using assms by (simp add: hashPayload_def bytesToHex_length)

text \<open>What the atomic section does once the counter is read and the proof is generated.\<close>

lemma atomic_section_generated:
  assumes "agents d agentId = Some a" and "proof_nonce a + 1 \<le> INT_MAX"
    and "generateProof cr (rq_now rq) (rq_iv rq) agentId ruleId (map as_condition conditions)
           actionData (evaluation ruleEval) (rule_met ruleEval) (proof_nonce a + 1) = Inr g"
    and "length (summary ruleEval) \<le> 255" and "length (gen_proof_hash g) \<le> 66"
    and "\<not> list_ex (\<lambda>p. proof_id p = rq_row_id rq) (proofs d)"
  shows "list_ex (\<lambda>p. proof_hash p = gen_proof_hash g) (proofs d) \<Longrightarrow>
           prove_atomic_section cr rq agentId userId tier ruleId conditions actionData ruleEval d
             = Inl (UniqueViolation ''proofs_proof_hash_key'')"
    and "\<not> list_ex (\<lambda>p. proof_hash p = gen_proof_hash g) (proofs d) \<Longrightarrow>
         users d userId = Some u \<Longrightarrow> used_proofs_this_month u + 1 \<le> INT_MAX \<Longrightarrow>
           \<exists>row. nonce row = proof_nonce a + 1 \<and> proof_hash row = gen_proof_hash g
             \<and> proof_agent_id row = agentId \<and> proof_id row = rq_row_id rq
             \<and> prove_atomic_section cr rq agentId userId tier ruleId conditions actionData
                   ruleEval d
                 = Inr (row,
                     d\<lparr>agents := (agents d)(agentId \<mapsto> a\<lparr>proof_nonce := proof_nonce a + 1\<rparr>),
                       proofs := proofs d @ [row],
                       users := (users d)(userId \<mapsto>
                          u\<lparr>used_proofs_this_month := used_proofs_this_month u + 1\<rparr>)\<rparr>)"
  using assms
  by (simp_all add: prove_atomic_section_def Let_def)

lemma issue_succeeds:
  assumes "rq_agent_id rq = A" and "rq_parsed rq = Inr (rid, ad)"
    and "agents d A = Some a" and "agent_status a = ''active''"
    and "users d (agent_user_id a) = Some u"
    and "TIERS (user_tier u) = Some t"
    and "user_tier u \<noteq> ''free'' \<or> used_proofs_this_month u < monthly_limit t"
    and "rules d rid = Some rule" and "rule_agent_id rule = A"
    and "rule_status rule = ''active''"
    and "validateConditions (rule_conditions rule) = Inr Valid"
    and "ev = evaluateRule (runtime_of cr) (map as_condition (rule_conditions rule)) ad"
    and "length (summary ev) \<le> 255"
    and "proof_nonce a + 1 \<le> INT_MAX" and "used_proofs_this_month u + 1 \<le> INT_MAX"
    and "privateKey cr = Some k" and "\<forall>m. secp256k1_sign cr m k \<noteq> None"
    and "encryptionKey cr = Some ek" and "length ek = 32" and "length (rq_iv rq) = 12"
    and "gcm_correct (aes_gcm cr)" and "\<forall>x. length (keccak256 cr x) = 32"
    and "\<not> list_ex (\<lambda>p. proof_id p = rq_row_id rq) (proofs d)"
    and "\<not> list_ex (\<lambda>p. proof_hash p =
            hashPayload cr (buildProofPayload (runtime_of cr) (rq_now rq) A rid
              (map as_condition (rule_conditions rule)) ad (evaluation ev) (rule_met ev)
              (proof_nonce a + 1))) (proofs d)"
  shows "\<exists>row. nonce row = proof_nonce a + 1 \<and> proof_agent_id row = A
           \<and> proof_id row = rq_row_id rq
           \<and> proof_hash row =
               hashPayload cr (buildProofPayload (runtime_of cr) (rq_now rq) A rid
                 (map as_condition (rule_conditions rule)) ad (evaluation ev) (rule_met ev)
                 (proof_nonce a + 1))
           \<and> issue cr d rq =
               (Created row,
                d\<lparr>agents := (agents d)(A \<mapsto> a\<lparr>proof_nonce := proof_nonce a + 1\<rparr>),
                  proofs := proofs d @ [row],
                  users := (users d)(agent_user_id a \<mapsto>
                     u\<lparr>used_proofs_this_month := used_proofs_this_month u + 1\<rparr>)\<rparr>)"
proof -
  have pre: "prove_precheck cr rq A u d = Inr (rid, rule, ad, ev)"
    using assms(2,6,7,8,9,10,11,12) by (auto simp add: prove_precheck_def)
  obtain g where g: "generateProof cr (rq_now rq) (rq_iv rq) A rid
        (map as_condition (rule_conditions rule)) ad (evaluation ev) (rule_met ev)
        (proof_nonce a + 1) = Inr g"
    and gh: "gen_proof_hash g = hashPayload cr (buildProofPayload (runtime_of cr) (rq_now rq) A
        rid (map as_condition (rule_conditions rule)) ad (evaluation ev) (rule_met ev)
        (proof_nonce a + 1))"
    using generateProof_succeeds [OF assms(16) assms(17) assms(18) assms(19) assms(20) assms(21)]
    by blast
  have len: "length (gen_proof_hash g) \<le> 66"
    using hashPayload_length [OF assms(22)] gh by simp
  have nh: "\<not> list_ex (\<lambda>p. proof_hash p = gen_proof_hash g) (proofs d)"
    using assms(24) gh by simp
  obtain row where row: "nonce row = proof_nonce a + 1" "proof_agent_id row = A"
      "proof_id row = rq_row_id rq" "proof_hash row = gen_proof_hash g"
    and sec: "prove_atomic_section cr rq A (agent_user_id a) (user_tier u) rid
        (rule_conditions rule) ad ev d
      = Inr (row,
          d\<lparr>agents := (agents d)(A \<mapsto> a\<lparr>proof_nonce := proof_nonce a + 1\<rparr>),
            proofs := proofs d @ [row],
            users := (users d)(agent_user_id a \<mapsto>
               u\<lparr>used_proofs_this_month := used_proofs_this_month u + 1\<rparr>)\<rparr>)"
    using atomic_section_generated(2)
      [OF assms(3) assms(14) g assms(13) len assms(23) nh assms(5) assms(15)]
    by blast
  have "issue cr d rq =
      (Created row,
       d\<lparr>agents := (agents d)(A \<mapsto> a\<lparr>proof_nonce := proof_nonce a + 1\<rparr>),
         proofs := proofs d @ [row],
         users := (users d)(agent_user_id a \<mapsto>
            u\<lparr>used_proofs_this_month := used_proofs_this_month u + 1\<rparr>)\<rparr>)"
    using assms(1,3,4,5) pre sec
    by (simp add: issue_def post_api_prove_def transaction_def)
  then show ?thesis using row gh by auto
qed

subsection \<open>Sample data\<close>

definition cr0 :: crypto where
  "cr0 = \<lparr>runtime_of = sample_runtime, keccak256 = sample_hash,
           secp256k1_sign = (\<lambda>msg key. Some (11, 12, 0)),
           aes_gcm = sample_gcm, privateKey = Some key0, encryptionKey = Some key0\<rparr>"

definition db0 :: db where
  "db0 = \<lparr>agents = [''agent-1'' \<mapsto>
                  \<lparr>agent_user_id = ''user-1'', agent_status = ''active'', proof_nonce = 0\<rparr>],
           users = [''user-1'' \<mapsto> \<lparr>user_tier = ''starter'', used_proofs_this_month = 1000\<rparr>],
           rules = [''rule-1'' \<mapsto>
                  \<lparr>rule_agent_id = ''agent-1'',
                   rule_conditions = [rawcond ''x'' ''<='' (JNum (Finite 5))],
                   rule_status = ''active''\<rparr>],
           proofs = []\<rparr>"

definition rq1 :: request where
  "rq1 = \<lparr>rq_agent_id = ''agent-1'', rq_parsed = Inr (''rule-1'', [(''x'', JNum (Finite 3))]),
           rq_now = 1700000000123, rq_row_id = ''p1'', rq_iv = iv0\<rparr>"

definition rq2 :: request where
  "rq2 = \<lparr>rq_agent_id = ''agent-1'', rq_parsed = Inr (''rule-1'', [(''x'', JNum (Finite 3))]),
           rq_now = 1700000001123, rq_row_id = ''p2'', rq_iv = iv0\<rparr>"





definition user0 :: user_row where
  "user0 = \<lparr>user_tier = ''starter'', used_proofs_this_month = 1000\<rparr>"

definition agent0 :: agent_row where
  "agent0 = \<lparr>agent_user_id = ''user-1'', agent_status = ''active'', proof_nonce = 0\<rparr>"

definition rule0 :: rule_row where
  "rule0 = \<lparr>rule_agent_id = ''agent-1'', rule_conditions = [rawcond ''x'' ''<='' (JNum (Finite 5))],
             rule_status = ''active''\<rparr>"

lemma db0_rows:
  "agents db0 ''agent-1'' = Some agent0" "users db0 ''user-1'' = Some user0"
  "rules db0 ''rule-1'' = Some rule0" "proofs db0 = []"
  by (simp_all add: db0_def agent0_def user0_def rule0_def)

lemma rule0_valid: "validateConditions (rule_conditions rule0) = Inr Valid"
  by (simp add: rule0_def validateConditions_def check_condition_def check_props_def
      rawcond_def js_get_def
      op_in_def VALID_OPS_def)

lemma rule0_conditions: "map as_condition (rule_conditions rule0) = [cond_x]"
  by (simp add: rule0_def as_condition_def rawcond_def js_get_def cond_x_def)

lemma rule0_eval:
  "evaluateRule sample_runtime [cond_x] [(''x'', JNum (Finite 3))]
     = \<lparr>rule_met = True, evaluation = [result_x], summary = ''All 1 condition passed''\<rparr>"
  by (simp add: evaluateRule_def eval_condition_def js_get_def op_pass_def num_le_def
      cond_x_def result_x_def Let_def plural_def decimal.simps)

lemma cr0_ok:
  "runtime_of cr0 = sample_runtime" "privateKey cr0 = Some key0"
  "\<forall>m. secp256k1_sign cr0 m key0 \<noteq> None"
  "encryptionKey cr0 = Some key0" "length key0 = 32" "length iv0 = 12"
  "gcm_correct (aes_gcm cr0)" "\<forall>x. length (keccak256 cr0 x) = 32"
  by (auto simp add: cr0_def key0_def iv0_def sample_gcm_correct sample_hash_def)

lemma TIERS_values:
  "TIERS ''free'' = Some \<lparr>base_fee = 0, monthly_limit = 10, overage_rate = 0\<rparr>"
  "TIERS ''starter'' = Some \<lparr>base_fee = 999 / 100, monthly_limit = 1000, overage_rate = 15 / 1000\<rparr>"
  by (simp_all add: TIERS_def)

lemma rows_fields:
  "agent_status agent0 = ''active''" "agent_user_id agent0 = ''user-1''" "proof_nonce agent0 = 0"
  "user_tier user0 = ''starter''" "used_proofs_this_month user0 = 1000"
  "rule_agent_id rule0 = ''agent-1''" "rule_status rule0 = ''active''"
  by (simp_all add: agent0_def user0_def rule0_def)

lemma rq1_fields:
  "rq_agent_id rq1 = ''agent-1''" "rq_parsed rq1 = Inr (''rule-1'', [(''x'', JNum (Finite 3))])"
  "rq_iv rq1 = iv0" "rq_row_id rq1 = ''p1''" "rq_now rq1 = 1700000000123"
  by (simp_all add: rq1_def)

lemma rule0_ev:
  "\<lparr>rule_met = True, evaluation = [result_x], summary = ''All 1 condition passed''\<rparr>
     = evaluateRule (runtime_of cr0) (map as_condition (rule_conditions rule0)) [(''x'', JNum (Finite 3))]"
  by (simp add: cr0_ok(1) rule0_conditions rule0_eval)

lemma issue_rq1:
  "\<exists>row. nonce row = 1 \<and> proof_agent_id row = ''agent-1'' \<and> proof_id row = ''p1''
     \<and> proof_hash row = hashPayload cr0 (buildProofPayload sample_runtime 1700000000123
           ''agent-1'' ''rule-1'' [cond_x] [(''x'', JNum (Finite 3))] [result_x] True 1)
     \<and> issue cr0 db0 rq1 =
       (Created row,
        db0\<lparr>agents := (agents db0)(''agent-1'' \<mapsto> agent0\<lparr>proof_nonce := 1\<rparr>),
           proofs := [row],
           users := (users db0)(''user-1'' \<mapsto> user0\<lparr>used_proofs_this_month := 1001\<rparr>)\<rparr>)"
proof -
  have t: "user_tier user0 \<noteq> ''free'' \<or> used_proofs_this_month user0
      < monthly_limit \<lparr>base_fee = 999 / 100, monthly_limit = 1000, overage_rate = 15 / 1000\<rparr>"
    by (simp add: rows_fields)
  have tl: "TIERS (user_tier user0)
      = Some \<lparr>base_fee = 999 / 100, monthly_limit = 1000, overage_rate = 15 / 1000\<rparr>"
    by (simp add: rows_fields TIERS_values)
  have u: "users db0 (agent_user_id agent0) = Some user0"
    by (simp add: rows_fields db0_rows)
  have sl: "length (summary \<lparr>rule_met = True, evaluation = [result_x],
      summary = ''All 1 condition passed''\<rparr>) \<le> 255"
    by simp
  have n1: "proof_nonce agent0 + 1 \<le> INT_MAX" "used_proofs_this_month user0 + 1 \<le> INT_MAX"
    by (simp_all add: rows_fields INT_MAX_def)
  have iv: "length (rq_iv rq1) = 12" by (simp add: rq1_fields cr0_ok)
  have np: "\<not> list_ex (\<lambda>p. proof_id p = rq_row_id rq1) (proofs db0)"
    by (simp add: db0_rows)
  have nh: "\<not> list_ex (\<lambda>p. proof_hash p = h) (proofs db0)" for h
    by (simp add: db0_rows)
  show ?thesis
    using issue_succeeds [OF rq1_fields(1) rq1_fields(2) db0_rows(1) rows_fields(1) u tl t
        db0_rows(3) rows_fields(6) rows_fields(7) rule0_valid rule0_ev sl n1(1) n1(2)
        cr0_ok(2) cr0_ok(3) cr0_ok(4) cr0_ok(5) iv cr0_ok(7) cr0_ok(8) np nh]
    by (simp add: rows_fields db0_rows rq1_fields cr0_ok(1) rule0_conditions)
qed

definition rq_bad :: request where
  "rq_bad = \<lparr>rq_agent_id = ''agent-1'', rq_parsed = Inr (''no-such-rule'', [(''x'', JNum (Finite 3))]),
              rq_now = 1700000000500, rq_row_id = ''p9'', rq_iv = iv0\<rparr>"

lemma sample_num_str2:
  "numToString sample_runtime 1700000001 = ''1700000001''"
  "numToString sample_runtime 2 = ''2''"
  by (simp_all add: sample_runtime_def decimal.simps)

lemma payload_2:
  \<open>buildProofPayload sample_runtime 1700000001123 ''agent-1'' ''rule-1''
      [cond_x] [(''x'', v)] [result_x] True 2
     = ''{"action":{},"agent":"agent-1","conditions":[{}],"eval":[{}],"met":true,"nonce":2,"rule":"rule-1","ts":1700000001,"v":1}''\<close>
  unfolding buildProofPayload_def Let_def
  by (simp add: payload_keys_sorted sample_num_str sample_num_str2 cond_to_js_def
      result_to_js_def cond_x_def result_x_def quote_def quote_char_def dq_def backslash_def
      object_prototype_keys_def stringify_builtin_def Let_def)

lemma sample_hashes_differ:
  \<open>hashPayload cr0 ''{"action":{},"agent":"agent-1","conditions":[{}],"eval":[{}],"met":true,"nonce":1,"rule":"rule-1","ts":1700000000,"v":1}''
   \<noteq> hashPayload cr0 ''{"action":{},"agent":"agent-1","conditions":[{}],"eval":[{}],"met":true,"nonce":2,"rule":"rule-1","ts":1700000001,"v":1}''\<close>
  by (simp add: hashPayload_def cr0_def sample_hash_def utf8_bytes_def bytesToHex_def
      hex_char_def)

lemma rq2_fields:
  "rq_agent_id rq2 = ''agent-1''" "rq_parsed rq2 = Inr (''rule-1'', [(''x'', JNum (Finite 3))])"
  "rq_iv rq2 = iv0" "rq_row_id rq2 = ''p2''" "rq_now rq2 = 1700000001123"
  by (simp_all add: rq2_def)

lemma rq_bad_fields:
  "rq_agent_id rq_bad = ''agent-1''" "rq_parsed rq_bad = Inr (''no-such-rule'', [(''x'', JNum (Finite 3))])"
  by (simp_all add: rq_bad_def)

subsection \<open>Quota\<close>

text \<open>
  C2, as stated, fails for the paid tiers: the quota check of the handler is guarded by
  \<open>user.tier === 'free'\<close>. A starter-tier user with 1000 proofs issued, the tier's limit,
  is issued a proof: the row is inserted and the agent's counter advances.
\<close>

theorem paid_tier_over_limit_counterexample:
  "map_option monthly_limit (TIERS ''starter'') = Some 1000
   \<and> map_option user_tier (users db0 ''user-1'') = Some ''starter''
   \<and> map_option used_proofs_this_month (users db0 ''user-1'') = Some 1000
   \<and> agent_counter ''agent-1'' db0 = Some 0
   \<and> is_created (fst (issue cr0 db0 rq1))
   \<and> agent_counter ''agent-1'' (snd (issue cr0 db0 rq1)) = Some 1
   \<and> length (proofs (snd (issue cr0 db0 rq1))) = 1"
proof -
  obtain row where r: "issue cr0 db0 rq1 =
       (Created row,
        db0\<lparr>agents := (agents db0)(''agent-1'' \<mapsto> agent0\<lparr>proof_nonce := 1\<rparr>),
           proofs := [row],
           users := (users db0)(''user-1'' \<mapsto> user0\<lparr>used_proofs_this_month := 1001\<rparr>)\<rparr>)"
    using issue_rq1 by blast
  show ?thesis
    unfolding r
    by (simp add: TIERS_values db0_rows rows_fields agent_counter_def)
qed


text \<open>
  C2, amended. For every caller on the free tier whose monthly issuance counter has
  reached the tier's limit, the issue-attestation operation with a well-formed body
  fails with the quota-exceeded error; whatever the body, no proof row is inserted and
  the agent's sequence counter is not advanced: the state is unchanged.
\<close>

theorem free_tier_quota_exceeded:
  assumes "agents d (rq_agent_id rq) = Some a" and "agent_status a = ''active''"
    and "users d (agent_user_id a) = Some u"
    and "user_tier u = ''free''" and "TIERS (user_tier u) = Some t"
    and "used_proofs_this_month u \<ge> monthly_limit t"
  shows "(rq_parsed rq = Inr body \<longrightarrow> issue cr d rq = (Reply 402 ''QUOTA_EXCEEDED'', d))
       \<and> \<not> is_created (fst (issue cr d rq))
       \<and> snd (issue cr d rq) = d"
proof -
  have pre: "prove_precheck cr rq (rq_agent_id rq) u d =
      (case rq_parsed rq of Inl m \<Rightarrow> Inl (Reply 400 ''VALIDATION_ERROR'')
       | Inr b \<Rightarrow> Inl (Reply 402 ''QUOTA_EXCEEDED''))"
    using assms(4,5,6) by (simp add: prove_precheck_def split: sum.splits prod.splits)
  have i: "issue cr d rq =
      (case rq_parsed rq of Inl m \<Rightarrow> (Reply 400 ''VALIDATION_ERROR'', d)
       | Inr b \<Rightarrow> (Reply 402 ''QUOTA_EXCEEDED'', d))"
    using assms(1,2,3) by (simp add: issue_def post_api_prove_def pre split: sum.splits)
  show ?thesis unfolding i by (simp split: sum.splits)
qed

definition db_free :: db where
  "db_free = db0\<lparr>users := [''user-1'' \<mapsto> \<lparr>user_tier = ''free'', used_proofs_this_month = 10\<rparr>]\<rparr>"

theorem free_tier_quota_exceeded_witness:
  "map_option monthly_limit (TIERS ''free'') = Some 10
   \<and> map_option used_proofs_this_month (users db_free ''user-1'') = Some 10
   \<and> issue cr0 db_free rq1 = (Reply 402 ''QUOTA_EXCEEDED'', db_free)
   \<and> proofs db_free = []
   \<and> agent_counter ''agent-1'' db_free = Some 0"
proof -
  have a: "agents db_free (rq_agent_id rq1) = Some agent0"
    by (simp add: db_free_def db0_rows rq1_fields)
  have u: "users db_free (agent_user_id agent0)
      = Some \<lparr>user_tier = ''free'', used_proofs_this_month = 10\<rparr>"
    by (simp add: db_free_def rows_fields)
  have t: "TIERS (user_tier \<lparr>user_tier = ''free'', used_proofs_this_month = 10\<rparr>)
      = Some \<lparr>base_fee = 0, monthly_limit = 10, overage_rate = 0\<rparr>"
    by (simp add: TIERS_values)
  have "issue cr0 db_free rq1 = (Reply 402 ''QUOTA_EXCEEDED'', db_free)"
    using free_tier_quota_exceeded [OF a rows_fields(1) u _ t, of "(''rule-1'', [(''x'', JNum (Finite 3))])" cr0]
    by (simp add: rq1_fields)
  then show ?thesis
    using a by (simp add: TIERS_values db_free_def db0_rows agent_counter_def rows_fields rq1_fields)
qed

subsection \<open>Sequence numbers\<close>

text \<open>
  C3. For every agent whose counter is 0 and which has no proof yet, after any sequence
  of requests, run one after the other, of which \<open>k\<close> are successful issue-attestation
  operations of that agent, the persisted nonces of the agent's proofs are exactly
  1, ..., k (starting at 1, no duplicates, no gaps) and its counter equals \<open>k\<close>.
\<close>

theorem nonces_contiguous:
  assumes "agent_counter A d0 = Some 0" and "agent_nonces A d0 = []"
    and "run cr d0 rqs = (resps, d)"
  shows "agent_nonces A d = map int [1..<Suc (successes A rqs resps)]
       \<and> agent_counter A d = Some (int (successes A rqs resps))
       \<and> set (agent_nonces A d) = {1..int (successes A rqs resps)}
       \<and> distinct (agent_nonces A d)"
proof -
  have c: "agent_counter A d0 = Some (int 0)" and n: "agent_nonces A d0 = map int [1..<Suc 0]"
    using assms(1,2) by simp_all
  have r: "agent_counter A d = Some (int (successes A rqs resps))"
      "agent_nonces A d = map int [1..<Suc (successes A rqs resps)]"
    using run_invariant [OF assms(3) c n] by simp_all
  have s: "set (map int [1..<Suc k]) = {1..int k}" for k
  proof
    show "set (map int [1..<Suc k]) \<subseteq> {1..int k}" by auto
    show "{1..int k} \<subseteq> set (map int [1..<Suc k])"
    proof
      fix x assume "x \<in> {1..int k}"
      then have "nat x \<in> set [1..<Suc k]" and "x = int (nat x)" by auto
      then show "x \<in> set (map int [1..<Suc k])" by (metis image_eqI set_map)
    qed
  qed
  have dst: "distinct (map int [1..<Suc k])" for k
    by (simp add: distinct_map inj_on_def)
  show ?thesis using r s dst by simp
qed

theorem nonces_contiguous_witness:
  "agent_counter ''agent-1'' db0 = Some 0
   \<and> agent_nonces ''agent-1'' db0 = []
   \<and> map is_created (fst (run cr0 db0 [rq1, rq_bad, rq2])) = [True, False, True]
   \<and> agent_nonces ''agent-1'' (snd (run cr0 db0 [rq1, rq_bad, rq2])) = [1, 2]
   \<and> agent_counter ''agent-1'' (snd (run cr0 db0 [rq1, rq_bad, rq2])) = Some 2"
proof -
  have c0: "agent_counter ''agent-1'' db0 = Some 0"
    by (simp add: agent_counter_def db0_rows rows_fields)
  have n0: "agent_nonces ''agent-1'' db0 = []"
    by (simp add: agent_nonces_def db0_rows)
  let ?a1 = "agent0\<lparr>proof_nonce := 1\<rparr>"
  let ?u1 = "user0\<lparr>used_proofs_this_month := 1001\<rparr>"
  obtain row1 where row1: "proof_id row1 = ''p1''"
      "proof_hash row1 = hashPayload cr0 (buildProofPayload sample_runtime 1700000000123
           ''agent-1'' ''rule-1'' [cond_x] [(''x'', JNum (Finite 3))] [result_x] True 1)"
    and i1: "issue cr0 db0 rq1 =
       (Created row1,
        db0\<lparr>agents := (agents db0)(''agent-1'' \<mapsto> ?a1),
           proofs := [row1],
           users := (users db0)(''user-1'' \<mapsto> ?u1)\<rparr>)"
    using issue_rq1 by blast
  define d1 where "d1 = db0\<lparr>agents := (agents db0)(''agent-1'' \<mapsto> ?a1),
           proofs := [row1], users := (users db0)(''user-1'' \<mapsto> ?u1)\<rparr>"
  have d1_rows: "agents d1 ''agent-1'' = Some ?a1" "users d1 ''user-1'' = Some ?u1"
      "rules d1 ''rule-1'' = Some rule0" "rules d1 ''no-such-rule'' = None" "proofs d1 = [row1]"
    by (simp_all add: d1_def db0_rows) (simp add: db0_def)
  have ib: "issue cr0 d1 rq_bad = (Reply 404 ''RULE_NOT_FOUND'', d1)"
    by (simp add: issue_def post_api_prove_def prove_precheck_def rq_bad_fields d1_rows
        rows_fields TIERS_values)
  have t: "user_tier ?u1 \<noteq> ''free'' \<or> used_proofs_this_month ?u1
      < monthly_limit \<lparr>base_fee = 999 / 100, monthly_limit = 1000, overage_rate = 15 / 1000\<rparr>"
    by (simp add: rows_fields)
  have tl: "TIERS (user_tier ?u1)
      = Some \<lparr>base_fee = 999 / 100, monthly_limit = 1000, overage_rate = 15 / 1000\<rparr>"
    by (simp add: rows_fields TIERS_values)
  have st: "agent_status ?a1 = ''active''" by (simp add: rows_fields)
  have u: "users d1 (agent_user_id ?a1) = Some ?u1"
    by (simp add: rows_fields d1_rows)
  have sl: "length (summary \<lparr>rule_met = True, evaluation = [result_x],
      summary = ''All 1 condition passed''\<rparr>) \<le> 255"
    by simp
  have n1: "proof_nonce ?a1 + 1 \<le> INT_MAX" "used_proofs_this_month ?u1 + 1 \<le> INT_MAX"
    by (simp_all add: INT_MAX_def)
  have iv: "length (rq_iv rq2) = 12" by (simp add: rq2_fields cr0_ok)
  have np: "\<not> list_ex (\<lambda>p. proof_id p = rq_row_id rq2) (proofs d1)"
    by (simp add: d1_rows row1 rq2_fields)
  have nh: "\<not> list_ex (\<lambda>p. proof_hash p =
            hashPayload cr0 (buildProofPayload (runtime_of cr0) (rq_now rq2) ''agent-1'' ''rule-1''
              (map as_condition (rule_conditions rule0)) [(''x'', JNum (Finite 3))]
              (evaluation \<lparr>rule_met = True, evaluation = [result_x],
                 summary = ''All 1 condition passed''\<rparr>)
              (rule_met \<lparr>rule_met = True, evaluation = [result_x],
                 summary = ''All 1 condition passed''\<rparr>)
              (proof_nonce ?a1 + 1))) (proofs d1)"
    using sample_hashes_differ
    by (simp add: d1_rows row1 rq2_fields cr0_ok(1) rule0_conditions payload_x payload_2)
  obtain row2 d2 where i2: "issue cr0 d1 rq2 = (Created row2, d2)"
    using issue_succeeds [OF rq2_fields(1) rq2_fields(2) d1_rows(1) st u tl t
        d1_rows(3) rows_fields(6) rows_fields(7) rule0_valid rule0_ev sl n1(1) n1(2)
        cr0_ok(2) cr0_ok(3) cr0_ok(4) cr0_ok(5) iv cr0_ok(7) cr0_ok(8) np nh]
    by blast
  have i1': "issue cr0 db0 rq1 = (Created row1, d1)"
    using i1 by (simp add: d1_def)
  have r: "run cr0 db0 [rq1, rq_bad, rq2]
      = ([Created row1, Reply 404 ''RULE_NOT_FOUND'', Created row2], d2)"
    by (simp add: i1' ib i2)
  have k: "successes ''agent-1'' [rq1, rq_bad, rq2]
      [Created row1, Reply 404 ''RULE_NOT_FOUND'', Created row2] = 2"
    by (simp add: rq1_fields rq_bad_fields rq2_fields)
  show ?thesis
    using nonces_contiguous [OF c0 n0 r] c0 n0 unfolding k r
    by (simp add: upt_rec numeral_2_eq_2)
qed


subsection \<open>Atomicity\<close>

text \<open>
  C4. If any step inside the atomic section of issue-attestation fails (the counter
  update, the proof generation, the insert, a digest collision included, or the usage
  update), the handler replies with an internal error and the state is the state before
  the request: no proof row, the sequence counter not consumed, the usage counter not
  incremented.
\<close>

theorem atomic_section_failure_persists_nothing:
  assumes "prove_precheck cr rq agentId user d = Inr (rule_id, rule, action_data, ruleEval)"
    and "prove_atomic_section cr rq agentId userId (user_tier user) rule_id
           (rule_conditions rule) action_data ruleEval d = Inl err"
  shows "post_api_prove cr rq agentId userId user d = (Reply 500 ''INTERNAL_ERROR'', d)"
  using assms by (simp add: post_api_prove_def transaction_def)


text \<open>A database that already holds a proof with the digest the request will produce.\<close>

definition row_c :: proof_row where
  "row_c = \<lparr>proof_id = ''p0'', proof_agent_id = ''agent-2'', proof_rule_id = ''rule-7'',
             proof_action_data = [], proof_evaluation = [], proof_rule_met = False,
             decision_summary = ''0 of 0 condition failed'',
             proof_hash = hashPayload cr0 (buildProofPayload sample_runtime 1700000000123
                ''agent-1'' ''rule-1'' [cond_x] [(''x'', JNum (Finite 3))] [result_x] True 1),
             signature_encrypted = [], nonce = 1, proof_cost = 0, created_at = 0\<rparr>"

definition db_c :: db where
  "db_c = db0\<lparr>proofs := [row_c]\<rparr>"

theorem atomic_section_failure_persists_nothing_witness:
  "prove_precheck cr0 rq1 ''agent-1'' user0 db_c
     = Inr (''rule-1'', rule0, [(''x'', JNum (Finite 3))],
            \<lparr>rule_met = True, evaluation = [result_x], summary = ''All 1 condition passed''\<rparr>)
   \<and> prove_atomic_section cr0 rq1 ''agent-1'' ''user-1'' (user_tier user0) ''rule-1''
        (rule_conditions rule0) [(''x'', JNum (Finite 3))]
        \<lparr>rule_met = True, evaluation = [result_x], summary = ''All 1 condition passed''\<rparr> db_c
     = Inl (UniqueViolation ''proofs_proof_hash_key'')
   \<and> post_api_prove cr0 rq1 ''agent-1'' ''user-1'' user0 db_c
     = (Reply 500 ''INTERNAL_ERROR'', db_c)
   \<and> agent_counter ''agent-1'' db_c = Some 0"
proof -
  let ?ev = "\<lparr>rule_met = True, evaluation = [result_x], summary = ''All 1 condition passed''\<rparr>"
  have rows: "agents db_c ''agent-1'' = Some agent0" "rules db_c ''rule-1'' = Some rule0"
      "proofs db_c = [row_c]"
    by (simp_all add: db_c_def db0_rows)
  have pre: "prove_precheck cr0 rq1 ''agent-1'' user0 db_c
     = Inr (''rule-1'', rule0, [(''x'', JNum (Finite 3))], ?ev)"
    using rule0_ev
    by (simp add: prove_precheck_def rq1_fields rows rows_fields TIERS_values rule0_valid)
  obtain g where g: "generateProof cr0 (rq_now rq1) (rq_iv rq1) ''agent-1'' ''rule-1''
        (map as_condition (rule_conditions rule0)) [(''x'', JNum (Finite 3))] (evaluation ?ev)
        (rule_met ?ev) (proof_nonce agent0 + 1) = Inr g"
    and gh: "gen_proof_hash g = hashPayload cr0 (buildProofPayload (runtime_of cr0) (rq_now rq1)
        ''agent-1'' ''rule-1'' (map as_condition (rule_conditions rule0)) [(''x'', JNum (Finite 3))]
        (evaluation ?ev) (rule_met ?ev) (proof_nonce agent0 + 1))"
  proof -
    have iv: "length (rq_iv rq1) = 12" by (simp add: rq1_fields cr0_ok(6))
    show ?thesis
      using that generateProof_succeeds [OF cr0_ok(2) cr0_ok(3) cr0_ok(4) cr0_ok(5) iv cr0_ok(7)]
      by blast
  qed
  have gh': "gen_proof_hash g = proof_hash row_c"
    using gh by (simp add: row_c_def rq1_fields cr0_ok(1) rule0_conditions rows_fields)
  have n: "proof_nonce agent0 + 1 \<le> INT_MAX" by (simp add: rows_fields INT_MAX_def)
  have len: "length (gen_proof_hash g) \<le> 66"
    using hashPayload_length [OF cr0_ok(8)] gh by simp
  have np: "\<not> list_ex (\<lambda>p. proof_id p = rq_row_id rq1) (proofs db_c)"
    by (simp add: rows row_c_def rq1_fields)
  have col: "list_ex (\<lambda>p. proof_hash p = gen_proof_hash g) (proofs db_c)"
    by (simp add: rows gh')
  have sl: "length (summary ?ev) \<le> 255" by simp
  have sec: "prove_atomic_section cr0 rq1 ''agent-1'' ''user-1'' (user_tier user0) ''rule-1''
        (rule_conditions rule0) [(''x'', JNum (Finite 3))] ?ev db_c
     = Inl (UniqueViolation ''proofs_proof_hash_key'')"
    using atomic_section_generated(1) [OF rows(1) n g sl len np col] .
  have c: "agent_counter ''agent-1'' db_c = Some 0"
    by (simp add: agent_counter_def rows rows_fields)
  show ?thesis
    using pre sec c atomic_section_failure_persists_nothing [OF pre sec] by simp
qed


end
